theory Spec2Isabelle
  imports Main "HOL-Library.Word"
begin

unbundle bit_operations_syntax

section \<open>The DHCP client (dhcp_client.c)\<close>

subsection \<open>Data\<close>

type_synonym u8 = "8 word"
type_synonym u16 = "16 word"
type_synonym u32 = "32 word"

text \<open>A four byte array such as \<^verbatim>\<open>uint8_t dhcp_yiaddr[4]\<close>.\<close>

type_synonym ip4 = "u8 \<times> u8 \<times> u8 \<times> u8"

text \<open>
  The packet buffer \<^verbatim>\<open>uint8_t *buf\<close>: the bytes seen from the pointer, indexed by a
  16 bit offset (indices are computed in \<^verbatim>\<open>uint16_t\<close>/\<^verbatim>\<open>int\<close>, both 16 bits wide on
  the AVR). The received length \<^verbatim>\<open>plen\<close> is passed separately, as in the C code.
\<close>

type_synonym buffer = "u16 \<Rightarrow> u8"

text \<open>
  The offsets \<^verbatim>\<open>UDP_DATA_P\<close> and \<^verbatim>\<open>UDP_SRC_PORT_L_P\<close> are macros of \<^verbatim>\<open>net.h\<close> in the TCP/IP
  stack. The client is modelled for any values of them: they are parameters.
\<close>

record net_h =
  UDP_DATA_P :: u16
  UDP_SRC_PORT_L_P :: u16

definition DHCP_OPTION_OFFSET :: u16 where "DHCP_OPTION_OFFSET = 240"
definition DHCP_SRV_SRC_PORT :: u8 where "DHCP_SRV_SRC_PORT = 67"
definition DHCP_DISCOVER_V :: u8 where "DHCP_DISCOVER_V = 0x01"
definition DHCP_REQUEST_V :: u8 where "DHCP_REQUEST_V = 0x03"

definition param_req_lst_end_of_opt :: "u8 list" where
  "param_req_lst_end_of_opt = [0x37, 0x3, 0x1, 0x3, 0x6, 0xff, 0x0]"

text \<open>
  A transmitted DHCP message, as far as the client code itself determines it: the
  transaction id written by \<^verbatim>\<open>make_dhcp_message_template\<close>, the IP source address, the
  \<^verbatim>\<open>ciaddr\<close> field and the bytes of the option area that fall inside the length handed
  to \<^verbatim>\<open>send_udp_transmit\<close>. The Ethernet/IP/UDP framing is done by
  \<^verbatim>\<open>send_udp_prepare\<close> and \<^verbatim>\<open>send_udp_transmit\<close> of the TCP/IP stack.
\<close>

record dhcp_msg =
  msg_tid :: u8
  msg_ip_src :: ip4
  msg_ciaddr :: ip4
  msg_options :: "u8 list"

text \<open>
  The static variables of dhcp_client.c, followed by the two things the client does to
  its environment: the broadcast filter of the ENC28J60
  (\<^verbatim>\<open>enc28j60EnableBroadcast\<close>/\<^verbatim>\<open>enc28j60DisableBroadcast\<close>) and the messages handed to
  \<^verbatim>\<open>send_udp_transmit\<close>, oldest first.
\<close>

record dhcp =
  dhcp_yiaddr :: ip4
  dhcp_opt_defaultgw :: ip4
  dhcp_opt_mask :: ip4
  dhcp_opt_server_id :: ip4
  dhcp_opt_dns :: ip4
  dhcp_opt_message_type :: u8
  dhcp_tid :: u8
  dhcp_opt_leasetime :: u32
  dhcp_cnt_down :: u32
  dhcp_retry :: u8
  dhcp_state :: u8
  broadcast_enabled :: bool
  transmitted :: "dhcp_msg list"

text \<open>\<^verbatim>\<open>memcpy(dst, buf+off, 4)\<close>\<close>

definition bytes4 :: "buffer \<Rightarrow> u16 \<Rightarrow> ip4" where
  "bytes4 buf off = (buf off, buf (off + 1), buf (off + 2), buf (off + 3))"

fun ip4_bytes :: "ip4 \<Rightarrow> u8 list" where
  "ip4_bytes (a, b, c, d) = [a, b, c, d]"

subsection \<open>Time keeping\<close>

definition dhcp_tick :: "dhcp \<Rightarrow> dhcp" where
  "dhcp_tick s =
     (if dhcp_cnt_down s \<noteq> 0xffffffff then s\<lparr>dhcp_cnt_down := dhcp_cnt_down s - 1\<rparr> else s)"

definition is_dhcp_cnt_down_zero :: "dhcp \<Rightarrow> bool" where
  "is_dhcp_cnt_down_zero s = (dhcp_cnt_down s = 0)"

definition set_dhcp_renew_timer :: "u8 \<Rightarrow> dhcp \<Rightarrow> dhcp" where
  "set_dhcp_renew_timer divisor s =
     (let s1 = s\<lparr>dhcp_cnt_down := dhcp_opt_leasetime s div ucast divisor\<rparr>
      in if is_dhcp_cnt_down_zero s1 then s1\<lparr>dhcp_state := 0\<rparr> else s1)"

definition set_dhcp_retry_timer :: "dhcp \<Rightarrow> dhcp" where
  "set_dhcp_retry_timer s = s\<lparr>dhcp_cnt_down := ucast (dhcp_retry s)\<rparr>"

definition init_dhcp :: "u8 \<Rightarrow> dhcp \<Rightarrow> dhcp" where
  "init_dhcp initial_tid s = s\<lparr>dhcp_state := 0, dhcp_tid := initial_tid\<rparr>"

subsection \<open>Sending\<close>

definition enc28j60EnableBroadcast :: "dhcp \<Rightarrow> dhcp" where
  "enc28j60EnableBroadcast s = s\<lparr>broadcast_enabled := True\<rparr>"

definition enc28j60DisableBroadcast :: "dhcp \<Rightarrow> dhcp" where
  "enc28j60DisableBroadcast s = s\<lparr>broadcast_enabled := False\<rparr>"

definition send_udp_transmit :: "dhcp_msg \<Rightarrow> dhcp \<Rightarrow> dhcp" where
  "send_udp_transmit m s = s\<lparr>transmitted := transmitted s @ [m]\<rparr>"

text \<open>
  The message built by \<^verbatim>\<open>send_dhcp_discover\<close> for a transaction id: message type option,
  parameter request list, and a transmitted length of \<^verbatim>\<open>DHCP_OPTION_OFFSET+9\<close>.
\<close>

definition discover_message :: "u8 \<Rightarrow> dhcp_msg" where
  "discover_message tid =
     \<lparr>msg_tid = tid, msg_ip_src = (0, 0, 0, 0), msg_ciaddr = (0, 0, 0, 0),
      msg_options = take 9 ([0x35, 1, DHCP_DISCOVER_V] @ param_req_lst_end_of_opt)\<rparr>"

definition send_dhcp_discover :: "dhcp \<Rightarrow> dhcp" where
  "send_dhcp_discover s = send_udp_transmit (discover_message (dhcp_tid s)) s"

text \<open>The bytes \<^verbatim>\<open>make_dhcp_opt_ip\<close> writes; its return value is their number (6 or 0).\<close>

definition make_dhcp_opt_ip :: "u8 \<Rightarrow> ip4 \<Rightarrow> u8 list" where
  "make_dhcp_opt_ip opt src = (if fst src \<noteq> 0 then [opt, 4] @ ip4_bytes src else [])"

definition send_dhcp_request :: "dhcp \<Rightarrow> dhcp" where
  "send_dhcp_request s =
     (let opts = [0x35, 1, DHCP_REQUEST_V]
                 @ make_dhcp_opt_ip 0x36 (dhcp_opt_server_id s)
                 @ make_dhcp_opt_ip 0x32 (dhcp_yiaddr s);
          i = length opts
      in send_udp_transmit
           \<lparr>msg_tid = dhcp_tid s, msg_ip_src = (0, 0, 0, 0), msg_ciaddr = (0, 0, 0, 0),
            msg_options = take (i + 6) (opts @ param_req_lst_end_of_opt)\<rparr> s)"

text \<open>
  The message built by \<^verbatim>\<open>send_dhcp_renew_request\<close>: the held address as IP source and as
  \<^verbatim>\<open>ciaddr\<close>, the message type option and nothing else (length \<^verbatim>\<open>DHCP_OPTION_OFFSET+3\<close>).
\<close>

definition renew_request_message :: "u8 \<Rightarrow> ip4 \<Rightarrow> dhcp_msg" where
  "renew_request_message tid yiaddr =
     \<lparr>msg_tid = tid, msg_ip_src = yiaddr, msg_ciaddr = yiaddr,
      msg_options = [0x35, 1, DHCP_REQUEST_V]\<rparr>"

definition send_dhcp_renew_request :: "dhcp \<Rightarrow> dhcp" where
  "send_dhcp_renew_request s =
     send_udp_transmit (renew_request_message (dhcp_tid s) (dhcp_yiaddr s)) s"

subsection \<open>Parsing\<close>

text \<open>
  The option walk of \<^verbatim>\<open>dhcp_get_message_type\<close>. All index arithmetic is 16 bit and
  wraps; for a length close to 65535 the C loop need not terminate, so the loop is a
  partial function and \<open>None\<close> stands for a walk that never returns.
\<close>

partial_function (option) get_message_type_loop :: "buffer \<Rightarrow> u16 \<Rightarrow> u16 \<Rightarrow> u8 option" where
  "get_message_type_loop buf plen option_idx =
     (if option_idx + 2 < plen then
        (if buf (option_idx + 1) < 1 \<or> option_idx + ucast (buf (option_idx + 1)) + 1 > plen
         then Some 0
         else if buf option_idx = 53 then Some (buf (option_idx + 2))
         else get_message_type_loop buf plen (option_idx + (2 + ucast (buf (option_idx + 1)))))
      else Some 0)"

definition dhcp_get_message_type :: "net_h \<Rightarrow> buffer \<Rightarrow> u16 \<Rightarrow> u8 option" where
  "dhcp_get_message_type n buf plen =
     (if plen < UDP_DATA_P n + DHCP_OPTION_OFFSET + 3 then Some 0
      else get_message_type_loop buf plen (UDP_DATA_P n + DHCP_OPTION_OFFSET))"

text \<open>The transaction id check: \<^verbatim>\<open>while (i<4) { if (buf[UDP_DATA_P+4+i]!=dhcp_tid) return(0); i++; }\<close>\<close>

function verify_tid :: "net_h \<Rightarrow> buffer \<Rightarrow> u8 \<Rightarrow> u8 \<Rightarrow> bool" where
  "verify_tid n buf tid i =
     (if i < 4 then
        (if buf (UDP_DATA_P n + 4 + ucast i) \<noteq> tid then False
         else verify_tid n buf tid (i + 1))
      else True)"
  by pat_completeness auto
termination
proof (relation "measure (\<lambda>(n, buf, tid, i). 4 - unat i)")
  show "wf (measure (\<lambda>(n, buf, tid, i). 4 - unat i))" by simp
next
  fix n :: "'a net_h_scheme" and buf :: buffer and tid i :: u8
  assume "i < 4"
  then have "unat i < 4" by (simp add: word_less_nat_alt)
  then have "unat (i + 1) = unat i + 1" by (simp add: unat_word_ariths)
  with \<open>unat i < 4\<close>
  show "((n, buf, tid, i + 1), (n, buf, tid, i)) \<in> measure (\<lambda>(n, buf, tid, i). 4 - unat i)"
    by simp
qed

definition is_dhcp_msg_for_me :: "net_h \<Rightarrow> buffer \<Rightarrow> u16 \<Rightarrow> dhcp \<Rightarrow> u8 \<times> dhcp" where
  "is_dhcp_msg_for_me n buf plen s =
     (if plen < UDP_DATA_P n + DHCP_OPTION_OFFSET + 3 then (0, s)
      else if buf (UDP_SRC_PORT_L_P n) \<noteq> DHCP_SRV_SRC_PORT then (0, s)
      else if buf (UDP_DATA_P n) \<noteq> 2 then (0, s)
      else if \<not> verify_tid n buf (dhcp_tid s) 0 then (0, s)
      else if buf (UDP_DATA_P n + 16) \<noteq> 0
        then (1, s\<lparr>dhcp_yiaddr := bytes4 buf (UDP_DATA_P n + 16)\<rparr>)
      else (1, s))"

text \<open>
  The lease time loop of option 51:
  \<^verbatim>\<open>while(i<4){ dhcp_opt_leasetime=(dhcp_opt_leasetime<<8) | buf[option_idx+i+2]; i++; }\<close>
\<close>

function leasetime_loop :: "buffer \<Rightarrow> u16 \<Rightarrow> u8 \<Rightarrow> u32 \<Rightarrow> u32" where
  "leasetime_loop buf option_idx i leasetime =
     (if i < 4 then
        leasetime_loop buf option_idx (i + 1)
          (push_bit 8 leasetime OR ucast (buf (option_idx + ucast i + 2)))
      else leasetime)"
  by pat_completeness auto
termination
proof (relation "measure (\<lambda>(buf, option_idx, i, leasetime). 4 - unat i)")
  show "wf (measure (\<lambda>(buf, option_idx, i, leasetime). 4 - unat i))" by simp
next
  fix buf :: buffer and option_idx :: u16 and i :: u8 and leasetime :: u32
  assume "i < 4"
  then have "unat i < 4" by (simp add: word_less_nat_alt)
  then have "unat (i + 1) = unat i + 1" by (simp add: unat_word_ariths)
  with \<open>unat i < 4\<close>
  show "((buf, option_idx, i + 1,
          push_bit 8 leasetime OR ucast (buf (option_idx + ucast i + 2))),
         (buf, option_idx, i, leasetime))
        \<in> measure (\<lambda>(buf, option_idx, i, leasetime). 4 - unat i)"
    by simp
qed

text \<open>
  The \<^verbatim>\<open>switch (buf[option_idx])\<close> of \<^verbatim>\<open>dhcp_option_parser\<close>, as far as it changes the
  static variables. Case 0 also sets \<^verbatim>\<open>option_idx=plen\<close>, which is in the loop below.
\<close>

definition option_switch :: "buffer \<Rightarrow> u16 \<Rightarrow> u8 \<Rightarrow> dhcp \<Rightarrow> dhcp" where
  "option_switch buf option_idx option_len s =
     (if buf option_idx = 0 then s
      else if buf option_idx = 1 then
        (if option_len = 4 then s\<lparr>dhcp_opt_mask := bytes4 buf (option_idx + 2)\<rparr> else s)
      else if buf option_idx = 3 then
        (if option_len = 4 then s\<lparr>dhcp_opt_defaultgw := bytes4 buf (option_idx + 2)\<rparr> else s)
      else if buf option_idx = 6 then s\<lparr>dhcp_opt_dns := bytes4 buf (option_idx + 2)\<rparr>
      else if buf option_idx = 51 then
        (if option_len = 4
         then s\<lparr>dhcp_opt_leasetime := leasetime_loop buf option_idx 0 (dhcp_opt_leasetime s)\<rparr>
         else s)
      else if buf option_idx = 53 then s\<lparr>dhcp_opt_message_type := buf (option_idx + 2)\<rparr>
      else if buf option_idx = 54 then
        (if option_len = 4 then s\<lparr>dhcp_opt_server_id := bytes4 buf (option_idx + 2)\<rparr> else s)
      else s)"

partial_function (option) option_parser_loop :: "buffer \<Rightarrow> u16 \<Rightarrow> u16 \<Rightarrow> dhcp \<Rightarrow> dhcp option" where
  "option_parser_loop buf plen option_idx s =
     (if option_idx + 2 < plen then
        (if buf (option_idx + 1) < 1 \<or> option_idx + ucast (buf (option_idx + 1)) + 1 > plen
         then Some s
         else option_parser_loop buf plen
                ((if buf option_idx = 0 then plen else option_idx)
                   + (2 + ucast (buf (option_idx + 1))))
                (option_switch buf option_idx (buf (option_idx + 1)) s))
      else Some s)"

definition dhcp_option_parser :: "net_h \<Rightarrow> buffer \<Rightarrow> u16 \<Rightarrow> dhcp \<Rightarrow> (u8 \<times> dhcp) option" where
  "dhcp_option_parser n buf plen s =
     (if plen < UDP_DATA_P n + DHCP_OPTION_OFFSET + 3 then Some (0, s)
      else case option_parser_loop buf plen (UDP_DATA_P n + DHCP_OPTION_OFFSET) s of
             None \<Rightarrow> None
           | Some s' \<Rightarrow> Some (1, s'))"

subsection \<open>The packet loop entry points\<close>

text \<open>
  \<open>linkup\<close> is the value of \<^verbatim>\<open>enc28j60linkup()\<close> at the call. The three tests on the
  message type \<^verbatim>\<open>cmd\<close> exclude each other, so the sequence of \<^verbatim>\<open>if\<close> statements is
  written as one chain. The result is \<open>None\<close> when an option walk does not return.
\<close>

definition packetloop_dhcp_initial_ip_assignment ::
  "net_h \<Rightarrow> bool \<Rightarrow> buffer \<Rightarrow> u16 \<Rightarrow> dhcp \<Rightarrow> (u8 \<times> dhcp) option" where
  "packetloop_dhcp_initial_ip_assignment n linkup buf plen s =
     (if \<not> linkup then Some (0, s)
      else if dhcp_state s > 2 then Some (0, s)
      else if plen = 0 then
        (if dhcp_state s = 0 then
           Some (0, send_dhcp_discover (enc28j60EnableBroadcast
                      (set_dhcp_retry_timer (s\<lparr>dhcp_state := 1, dhcp_retry := 4\<rparr>))))
         else if dhcp_state s \<noteq> 0 \<and> is_dhcp_cnt_down_zero s then
           (let s1 = s\<lparr>dhcp_tid := dhcp_tid s + 1, dhcp_retry := push_bit 1 (dhcp_retry s)\<rparr>
            in if dhcp_retry s1 > 32 then Some (0, s1\<lparr>dhcp_state := 0\<rparr>)
               else let s2 = set_dhcp_retry_timer s1
                    in if dhcp_state s2 = 1 then Some (0, send_dhcp_discover s2)
                       else Some (0, send_dhcp_request s2))
         else Some (0, s))
      else case is_dhcp_msg_for_me n buf plen s of
        (r, s1) \<Rightarrow>
          if r \<noteq> 0 then
            (case dhcp_get_message_type n buf plen of
               None \<Rightarrow> None
             | Some cmd \<Rightarrow>
                 if cmd = 2 then
                   (case dhcp_option_parser n buf plen
                           (set_dhcp_retry_timer (s1\<lparr>dhcp_state := 2, dhcp_retry := 4\<rparr>)) of
                      None \<Rightarrow> None
                    | Some (_, s2) \<Rightarrow> Some (0, send_dhcp_request s2))
                 else if cmd = 5 then
                   Some (1, enc28j60DisableBroadcast
                              (set_dhcp_renew_timer 2 (s1\<lparr>dhcp_state := 3, dhcp_retry := 0\<rparr>)))
                 else if cmd = 6 then Some (0, s1\<lparr>dhcp_state := 0\<rparr>)
                 else Some (0, s1))
          else Some (0, s1))"

definition packetloop_dhcp_renewhandler ::
  "net_h \<Rightarrow> bool \<Rightarrow> buffer \<Rightarrow> u16 \<Rightarrow> dhcp \<Rightarrow> (u16 \<times> dhcp) option" where
  "packetloop_dhcp_renewhandler n linkup buf plen s =
     (if dhcp_state s < 3 then Some (plen, s)
      else if plen = 0 \<and> is_dhcp_cnt_down_zero s then
        (if \<not> linkup then Some (plen, s)
         else let s1 = set_dhcp_renew_timer 8
                         (send_dhcp_renew_request (enc28j60EnableBroadcast
                            (s\<lparr>dhcp_tid := dhcp_tid s + 1, dhcp_state := 4\<rparr>)));
                  s2 = s1\<lparr>dhcp_retry := dhcp_retry s1 + 1\<rparr>
              in if dhcp_retry s2 > 3 then Some (0, s2\<lparr>dhcp_state := 0\<rparr>) else Some (0, s2))
      else case is_dhcp_msg_for_me n buf plen s of
        (r, s1) \<Rightarrow>
          if r \<noteq> 0 then
            (case dhcp_get_message_type n buf plen of
               None \<Rightarrow> None
             | Some cmd \<Rightarrow>
                 if cmd = 5 then
                   (case dhcp_option_parser n buf plen
                           (enc28j60DisableBroadcast (s1\<lparr>dhcp_state := 3, dhcp_retry := 0\<rparr>)) of
                      None \<Rightarrow> None
                    | Some (_, s2) \<Rightarrow> Some (0, set_dhcp_renew_timer 2 s2))
                 else if cmd = 6 then Some (0, s1\<lparr>dhcp_state := 0\<rparr>)
                 else Some (0, s1))
          else Some (plen, s1))"

subsection \<open>Ticks and polls in sequence\<close>

text \<open>
  The countdown only moves through \<^const>\<open>dhcp_tick\<close>. \<open>expire s\<close> is the state after as many
  ticks as the countdown of \<open>s\<close> holds, that is, when the pending interval has passed.
\<close>

definition expire :: "dhcp \<Rightarrow> dhcp" where
  "expire s = (dhcp_tick ^^ unat (dhcp_cnt_down s)) s"

text \<open>
  \<open>k\<close> unanswered intervals during the initial assignment: each time the pending interval
  passes and the packet loop then calls the entry point without a packet (\<^verbatim>\<open>plen==0\<close>), the
  link being up.
\<close>

fun unanswered_timeouts :: "net_h \<Rightarrow> buffer \<Rightarrow> nat \<Rightarrow> dhcp \<Rightarrow> dhcp option" where
  "unanswered_timeouts n buf 0 s = Some s"
| "unanswered_timeouts n buf (Suc k) s =
     (case unanswered_timeouts n buf k s of
        None \<Rightarrow> None
      | Some s' \<Rightarrow>
          map_option snd (packetloop_dhcp_initial_ip_assignment n True buf 0 (expire s')))"

text \<open>The same for the renewal handler: \<open>k\<close> renewal countdowns that pass without an answer.\<close>

fun unanswered_renewals :: "net_h \<Rightarrow> buffer \<Rightarrow> nat \<Rightarrow> dhcp \<Rightarrow> dhcp option" where
  "unanswered_renewals n buf 0 s = Some s"
| "unanswered_renewals n buf (Suc k) s =
     (case unanswered_renewals n buf k s of
        None \<Rightarrow> None
      | Some s' \<Rightarrow> map_option snd (packetloop_dhcp_renewhandler n True buf 0 (expire s')))"

subsection \<open>The two calls in the main loop\<close>

text \<open>
  Every pass of the main loop hands the received packet to both entry points:
  \<^verbatim>\<open>if (init_state==1 && packetloop_dhcp_initial_ip_assignment(buf,plen)) {...}\<close> and then
  \<^verbatim>\<open>plen=packetloop_dhcp_renewhandler(buf,plen);\<close>. The body of the \<^verbatim>\<open>if\<close> copies the lease
  variables out and does not change the client. The result is the value of the first call
  (0 if it is not made), the \<open>plen\<close> returned by the second and the client afterwards.
  \<open>up1\<close> and \<open>up2\<close> are the values of \<^verbatim>\<open>enc28j60linkup()\<close> in the two calls. The first call
  writes into \<open>buf\<close> only when it sends, and then it leaves the client in a state below 3, in
  which the second call returns without reading the buffer; so both calls get the same
  buffer here.
\<close>

definition dhcp_loop_pass ::
  "net_h \<Rightarrow> bool \<Rightarrow> bool \<Rightarrow> buffer \<Rightarrow> u16 \<Rightarrow> int \<Rightarrow> dhcp \<Rightarrow> (u8 \<times> u16 \<times> dhcp) option" where
  "dhcp_loop_pass n up1 up2 buf plen init_state s =
     (if init_state = 1 then
        (case packetloop_dhcp_initial_ip_assignment n up1 buf plen s of
           None \<Rightarrow> None
         | Some (r, s1) \<Rightarrow>
             (case packetloop_dhcp_renewhandler n up2 buf plen s1 of
                None \<Rightarrow> None
              | Some (plen', s2) \<Rightarrow> Some (r, plen', s2)))
      else
        (case packetloop_dhcp_renewhandler n up2 buf plen s of
           None \<Rightarrow> None
         | Some (plen', s2) \<Rightarrow> Some (0, plen', s2)))"

section \<open>The bring-up sequence of the main loop\<close>

definition TRANS_NUM_NTPMAC :: u8 where "TRANS_NUM_NTPMAC = 1"
definition TRANS_NUM_DNSMAC :: u8 where "TRANS_NUM_DNSMAC = 2"

text \<open>
  The variables of the main program that the steps up to the ARP resolution use.
  \<open>link_status\<close> and \<open>arp_retry_count\<close> are locals of \<^verbatim>\<open>main\<close>. \<open>arp_requests\<close> lists the
  calls of \<^verbatim>\<open>get_mac_with_arp\<close> (target address and reference number), oldest first.
\<close>

record clock =
  init_state :: int
  have_ntp_mac :: u8
  have_dns_mac :: u8
  delay_sec :: u8
  dns_state :: u8
  show_ip :: u8
  link_status :: u8
  arp_retry_count :: u8
  ntproutingmac :: "u8 list"
  dnsroutingmac :: "u8 list"
  myip :: ip4
  netmask :: ip4
  gwip :: ip4
  mydns :: ip4
  ntpip :: ip4
  arp_requests :: "(ip4 \<times> u8) list"

definition arpresolver_result_callback :: "ip4 \<Rightarrow> u8 \<Rightarrow> u8 list \<Rightarrow> clock \<Rightarrow> clock" where
  "arpresolver_result_callback ip reference_number mac s =
     (let s1 = (if reference_number = TRANS_NUM_NTPMAC
                then s\<lparr>ntproutingmac := mac, delay_sec := 0, have_ntp_mac := 1\<rparr> else s)
      in if reference_number = TRANS_NUM_DNSMAC
         then s1\<lparr>dnsroutingmac := mac, delay_sec := 0, have_dns_mac := 1\<rparr> else s1)"

text \<open>
  \<^verbatim>\<open>route_via_gw\<close> belongs to the TCP/IP stack and is a parameter. \<^verbatim>\<open>get_mac_with_arp\<close> sends
  an ARP request and registers the callback; the callback runs in a later pass of the
  loop, when the reply is received.
\<close>

definition arpresolver :: "(ip4 \<Rightarrow> bool) \<Rightarrow> clock \<Rightarrow> u8 \<times> clock" where
  "arpresolver route_via_gw s =
     (if have_dns_mac s = 0 then
        (1, s\<lparr>arp_requests := arp_requests s @
                 [(if route_via_gw (mydns s) then gwip s else mydns s, TRANS_NUM_DNSMAC)]\<rparr>)
      else if have_ntp_mac s = 0 then
        (1, s\<lparr>arp_requests := arp_requests s @
                 [(if route_via_gw (ntpip s) then gwip s else ntpip s, TRANS_NUM_NTPMAC)]\<rparr>)
      else (0, s))"

text \<open>The timer interrupt, as far as it touches these variables: \<^verbatim>\<open>if (delay_sec) delay_sec--;\<close>\<close>

definition timer_tick :: "clock \<Rightarrow> clock" where
  "timer_tick s = (if delay_sec s \<noteq> 0 then s\<lparr>delay_sec := delay_sec s - 1\<rparr> else s)"

text \<open>
  \<^verbatim>\<open>if (init_state==1 && packetloop_dhcp_initial_ip_assignment(buf,plen))\<close>, for a call that
  returned non-zero and left the DHCP client in state \<open>d\<close>.
\<close>

definition lease_acquired :: "dhcp \<Rightarrow> clock \<Rightarrow> clock" where
  "lease_acquired d s =
     (if init_state s = 1 then
        s\<lparr>init_state := 2, myip := dhcp_yiaddr d, netmask := dhcp_opt_mask d,
          gwip := dhcp_opt_defaultgw d, mydns := dhcp_opt_dns d, show_ip := 30\<rparr>
      else s)"

text \<open>The link test of the idle part; \<open>up\<close> is the value of \<^verbatim>\<open>enc28j60linkup()\<close>.\<close>

definition link_check :: "u8 \<Rightarrow> clock \<Rightarrow> clock" where
  "link_check up s =
     (if up \<noteq> link_status s then
        (let s1 = s\<lparr>link_status := up\<rparr>
         in if up \<noteq> 0 then s1\<lparr>init_state := 0, delay_sec := 0\<rparr> else s1)
      else s)"

text \<open>
  \<^verbatim>\<open>if (init_state==0 && delay_sec==0)\<close>: request the initial address. The call
  \<^verbatim>\<open>init_dhcp(mymac[5])\<close> of this block acts on the variables of the DHCP client.
\<close>

definition request_initial_ip :: "clock \<Rightarrow> clock" where
  "request_initial_ip s =
     (if init_state s = 0 \<and> delay_sec s = 0
      then s\<lparr>init_state := 1, have_ntp_mac := 0, have_dns_mac := 0\<rparr> else s)"

text \<open>\<^verbatim>\<open>if (init_state==2 && delay_sec==0)\<close>: resolve ARPs.\<close>

definition resolve_arps :: "(ip4 \<Rightarrow> bool) \<Rightarrow> clock \<Rightarrow> clock" where
  "resolve_arps route_via_gw s =
     (if init_state s = 2 \<and> delay_sec s = 0 then
        (let s1 =
           (if have_dns_mac s = 0 \<or> have_ntp_mac s = 0 then
              (case arpresolver route_via_gw s of
                 (r, sa) \<Rightarrow>
                   if r \<noteq> 0 then
                     (let sb = sa\<lparr>delay_sec := 2, arp_retry_count := arp_retry_count sa + 1\<rparr>
                      in if arp_retry_count sb = 15
                         then sb\<lparr>arp_retry_count := 0, init_state := 0, delay_sec := 0\<rparr>
                         else sb)
                   else sa)
            else s)
         in if have_dns_mac s1 \<noteq> 0 \<and> have_ntp_mac s1 \<noteq> 0
            then s1\<lparr>init_state := 3, delay_sec := 0, dns_state := 0\<rparr>
            else s1)
      else s)"

text \<open>A successful POST ends with \<^verbatim>\<open>init_state=0; delay_sec=0;\<close>.\<close>

definition post_reinit :: "clock \<Rightarrow> clock" where
  "post_reinit s = s\<lparr>init_state := 0, delay_sec := 0\<rparr>"

text \<open>
  What can happen to these variables, one event at a time: a timer interrupt, an ARP reply
  that makes the stack run the callback, a DHCP call that reports the lease, an accepted
  POST, and a pass through the idle part of the loop (no packet). The idle pass is followed
  through the blocks for \<^verbatim>\<open>init_state\<close> 0 and 2; the blocks for 3, 4 and 5 (DNS and NTP)
  come after the step to 3 and are not part of this model.
\<close>

datatype event =
    Tick
  | ArpReply ip4 u8 "u8 list"
  | LeaseAcquired dhcp
  | HttpPost
  | Idle u8

fun step :: "(ip4 \<Rightarrow> bool) \<Rightarrow> event \<Rightarrow> clock \<Rightarrow> clock" where
  "step rvg Tick s = timer_tick s"
| "step rvg (ArpReply ip reference_number mac) s =
     arpresolver_result_callback ip reference_number mac s"
| "step rvg (LeaseAcquired d) s = lease_acquired d s"
| "step rvg HttpPost s = post_reinit s"
| "step rvg (Idle up) s = resolve_arps rvg (request_initial_ip (link_check up s))"

fun run :: "(ip4 \<Rightarrow> bool) \<Rightarrow> event list \<Rightarrow> clock \<Rightarrow> clock" where
  "run rvg [] s = s"
| "run rvg (e # es) s = run rvg es (step rvg e s)"

definition callback_fired :: "u8 \<Rightarrow> event list \<Rightarrow> bool" where
  "callback_fired reference_number es =
     list_ex (\<lambda>e. case e of ArpReply ip r mac \<Rightarrow> r = reference_number | _ \<Rightarrow> False) es"

section \<open>Concrete data for the examples\<close>

text \<open>Offsets of an Ethernet/IPv4/UDP frame: 14 + 20 + 8 bytes of headers.\<close>

definition frame_offsets :: net_h where
  "frame_offsets = \<lparr>UDP_DATA_P = 0x2a, UDP_SRC_PORT_L_P = 0x23\<rparr>"

text \<open>The initial values of the static variables (\<^verbatim>\<open>dhcp_retry\<close> has no initialiser).\<close>

definition dhcp_power_on :: dhcp where
  "dhcp_power_on =
     \<lparr>dhcp_yiaddr = (0, 0, 0, 0), dhcp_opt_defaultgw = (0, 0, 0, 0),
      dhcp_opt_mask = (0, 0, 0, 0), dhcp_opt_server_id = (0, 0, 0, 0),
      dhcp_opt_dns = (8, 8, 8, 8), dhcp_opt_message_type = 0, dhcp_tid = 0,
      dhcp_opt_leasetime = 0xffffffff, dhcp_cnt_down = 0, dhcp_retry = 0, dhcp_state = 0,
      broadcast_enabled = False, transmitted = []\<rparr>"

text \<open>
  A client in REQUESTING with transaction id 7 that holds an offer of 192.0.2.50 with
  mask 255.255.0.0 and a lease of 3600 seconds from server 192.0.2.1.
\<close>

definition requesting_3600 :: dhcp where
  "requesting_3600 =
     dhcp_power_on\<lparr>dhcp_yiaddr := (192, 0, 2, 50), dhcp_opt_mask := (255, 255, 0, 0),
       dhcp_opt_server_id := (192, 0, 2, 1), dhcp_opt_message_type := 2, dhcp_tid := 7,
       dhcp_opt_leasetime := 3600, dhcp_cnt_down := 4, dhcp_retry := 4, dhcp_state := 2,
       broadcast_enabled := True\<rparr>"

text \<open>
  A reply from port 67 with transaction id 7 and \<^verbatim>\<open>yiaddr\<close> 192.0.2.50; its options are
  message type 5 (acknowledgment), subnet mask 255.255.255.0 and lease time 7200, then the
  end marker. It is 298 bytes long.
\<close>

definition ack_7200 :: buffer where
  "ack_7200 =
     (\<lambda>_. 0)(35 := 67, 42 := 2, 46 := 7, 47 := 7, 48 := 7, 49 := 7,
       58 := 192, 59 := 0, 60 := 2, 61 := 50,
       282 := 53, 283 := 1, 284 := 5,
       285 := 1, 286 := 4, 287 := 255, 288 := 255, 289 := 255, 290 := 0,
       291 := 51, 292 := 4, 293 := 0, 294 := 0, 295 := 0x1c, 296 := 0x20,
       297 := 255)"

text \<open>The same reply with a lease time of 1 second and no mask; 292 bytes.\<close>

definition ack_1 :: buffer where
  "ack_1 =
     (\<lambda>_. 0)(35 := 67, 42 := 2, 46 := 7, 47 := 7, 48 := 7, 49 := 7,
       58 := 192, 59 := 0, 60 := 2, 61 := 50,
       282 := 53, 283 := 1, 284 := 5,
       285 := 51, 286 := 4, 287 := 0, 288 := 0, 289 := 0, 290 := 1,
       291 := 255)"

text \<open>A negative acknowledgment (message type 6) with transaction id 7; 286 bytes.\<close>

definition nak_7 :: buffer where
  "nak_7 =
     (\<lambda>_. 0)(35 := 67, 42 := 2, 46 := 7, 47 := 7, 48 := 7, 49 := 7,
       282 := 53, 283 := 1, 284 := 6, 285 := 255)"

text \<open>The main program in the ARP step, nothing resolved yet.\<close>

definition resolving_peers :: clock where
  "resolving_peers =
     \<lparr>init_state = 2, have_ntp_mac = 0, have_dns_mac = 0, delay_sec = 0, dns_state = 0,
      show_ip = 30, link_status = 1, arp_retry_count = 0,
      ntproutingmac = [0, 0, 0, 0, 0, 0], dnsroutingmac = [0, 0, 0, 0, 0, 0],
      myip = (192, 0, 2, 50), netmask = (255, 255, 255, 0), gwip = (192, 0, 2, 1),
      mydns = (8, 8, 8, 8), ntpip = (17, 253, 52, 125), arp_requests = []\<rparr>"

text \<open>A loop pass without a packet does not look at the buffer; this one is all zero.\<close>

definition no_packet :: buffer where
  "no_packet = (\<lambda>_. 0)"

text \<open>
  The client after \<^verbatim>\<open>init_dhcp(7)\<close> and the first call without a packet: SELECTING, the
  first discovery sent, 4 seconds to go.
\<close>

definition selecting_7 :: dhcp where
  "selecting_7 =
     dhcp_power_on\<lparr>dhcp_tid := 7, dhcp_cnt_down := 4, dhcp_retry := 4, dhcp_state := 1,
       broadcast_enabled := True, transmitted := [discover_message 7]\<rparr>"

text \<open>A BOUND client that holds the lease of \<open>requesting_3600\<close>: 1800 seconds to the renewal.\<close>

definition bound_3600 :: dhcp where
  "bound_3600 =
     requesting_3600\<lparr>dhcp_cnt_down := 1800, dhcp_retry := 0, dhcp_state := 3,
       broadcast_enabled := False\<rparr>"

text \<open>
  The client after the acknowledgment \<open>ack_7200\<close> has gone through both calls of a loop
  pass: its mask and its 7200 seconds are committed, the countdown is 3600.
\<close>

definition bound_7200 :: dhcp where
  "bound_7200 =
     requesting_3600\<lparr>dhcp_opt_mask := (255, 255, 255, 0), dhcp_opt_message_type := 5,
       dhcp_opt_leasetime := 7200, dhcp_cnt_down := 3600, dhcp_retry := 0, dhcp_state := 3,
       broadcast_enabled := False\<rparr>"


text \<open>
  A BOUND client with the address and transaction id of the examples whose lease is 7
  seconds, as entered by an acknowledgment: the countdown is 3, the retry counter 0.
\<close>

definition bound_7 :: dhcp where
  "bound_7 =
     requesting_3600\<lparr>dhcp_opt_message_type := 5, dhcp_opt_leasetime := 7,
       dhcp_cnt_down := 3, dhcp_retry := 0, dhcp_state := 3, broadcast_enabled := False\<rparr>"

text \<open>The reply \<open>ack_1\<close> with a lease time of 7 seconds instead of 1; 292 bytes.\<close>

definition ack_7 :: buffer where
  "ack_7 = ack_1(290 := 7)"

text \<open>Both peers lie outside the local subnet, so every ARP request asks for the gateway.\<close>

definition all_via_gateway :: "ip4 \<Rightarrow> bool" where
  "all_via_gateway ip = True"

text \<open>
  A course of events in the ARP step in which the reply for the NTP reference number
  arrives first and the one for the DNS reference number last.
\<close>

definition ntp_reply_first :: "event list" where
  "ntp_reply_first =
     [Idle 1, ArpReply (192, 0, 2, 1) 1 [0, 1, 2, 3, 4, 5], Idle 1, Tick, Tick, Idle 1,
      ArpReply (192, 0, 2, 1) 2 [0, 1, 2, 3, 4, 5], Idle 1]"

section \<open>Properties of the DHCP client\<close>

declare verify_tid.simps [simp del] leasetime_loop.simps [simp del]

lemma verify_tid_unfold:
  "verify_tid n buf tid 0 =
     (buf (UDP_DATA_P n + 4) = tid \<and> buf (UDP_DATA_P n + 5) = tid \<and>
      buf (UDP_DATA_P n + 6) = tid \<and> buf (UDP_DATA_P n + 7) = tid)"
  by (simp add: verify_tid.simps [of _ _ _ 0] verify_tid.simps [of _ _ _ 1]
        verify_tid.simps [of _ _ _ 2] verify_tid.simps [of _ _ _ 3]
        verify_tid.simps [of _ _ _ 4] add.assoc)

lemma is_dhcp_msg_for_me_tid:
  "\<not> verify_tid n buf (dhcp_tid s) 0 \<Longrightarrow> is_dhcp_msg_for_me n buf plen s = (0, s)"
  by (simp add: is_dhcp_msg_for_me_def)

lemma all_ones: "(- 1 :: u32) = 0xffffffff"
  by simp

lemma short_length:
  assumes "unat (UDP_DATA_P n) + 243 < 65536" and "unat plen < unat (UDP_DATA_P n) + 243"
  shows "plen < UDP_DATA_P n + DHCP_OPTION_OFFSET + 3"
proof -
  have "unat (UDP_DATA_P n + DHCP_OPTION_OFFSET + 3) = unat (UDP_DATA_P n) + 243"
    using assms(1) by (simp add: DHCP_OPTION_OFFSET_def unat_word_ariths)
  with assms(2) show ?thesis by (simp add: word_less_nat_alt)
qed

subsection \<open>Replies with a foreign transaction id\<close>

text \<open>
  Claim C1. A received packet (\<open>plen \<noteq> 0\<close>) whose four transaction id bytes are not all
  equal to \<^verbatim>\<open>dhcp_tid\<close> is ignored by both packet loop entry points, in every state of the
  client and whatever the link state: the whole client state, and with it every lease
  field, the countdown, the retry counter and \<^verbatim>\<open>dhcp_state\<close>, is returned unchanged.
  The initial assignment returns 0 and the renew handler hands the packet on by
  returning \<open>plen\<close>.
\<close>

theorem foreign_tid_ignored:
  assumes "plen \<noteq> 0"
    and "\<not> (buf (UDP_DATA_P n + 4) = dhcp_tid s \<and> buf (UDP_DATA_P n + 5) = dhcp_tid s \<and>
            buf (UDP_DATA_P n + 6) = dhcp_tid s \<and> buf (UDP_DATA_P n + 7) = dhcp_tid s)"
  shows "packetloop_dhcp_initial_ip_assignment n linkup buf plen s = Some (0, s) \<and>
         packetloop_dhcp_renewhandler n linkup buf plen s = Some (plen, s)"
proof -
  from assms(2) have "\<not> verify_tid n buf (dhcp_tid s) 0"
    by (simp add: verify_tid_unfold)
  then have m: "is_dhcp_msg_for_me n buf plen s = (0, s)"
    by (rule is_dhcp_msg_for_me_tid)
  show ?thesis
    using assms(1) m
    by (simp add: packetloop_dhcp_initial_ip_assignment_def packetloop_dhcp_renewhandler_def)
qed

text \<open>
  An acknowledgment with transaction id 7 reaches a client that waits for id 8: in
  REQUESTING the state stays REQUESTING, in REBINDING the packet is passed on.
\<close>

theorem foreign_tid_ignored_witness:
  "packetloop_dhcp_initial_ip_assignment frame_offsets True ack_7200 298
      (requesting_3600\<lparr>dhcp_tid := 8\<rparr>) = Some (0, requesting_3600\<lparr>dhcp_tid := 8\<rparr>) \<and>
   dhcp_state (requesting_3600\<lparr>dhcp_tid := 8\<rparr>) = 2 \<and>
   packetloop_dhcp_renewhandler frame_offsets True ack_7200 298
      (requesting_3600\<lparr>dhcp_tid := 8, dhcp_state := 4\<rparr>)
     = Some (298, requesting_3600\<lparr>dhcp_tid := 8, dhcp_state := 4\<rparr>)"
  using foreign_tid_ignored
          [of 298 ack_7200 frame_offsets "requesting_3600\<lparr>dhcp_tid := 8\<rparr>" True]
    foreign_tid_ignored
          [of 298 ack_7200 frame_offsets "requesting_3600\<lparr>dhcp_tid := 8, dhcp_state := 4\<rparr>" True]
  by (simp add: frame_offsets_def ack_7200_def requesting_3600_def dhcp_power_on_def)

subsection \<open>Short packets\<close>

text \<open>
  Claim C7. The acceptance check compares \<open>plen\<close> with
  \<^verbatim>\<open>UDP_DATA_P+DHCP_OPTION_OFFSET+3\<close>: the fixed header and the magic cookie (240 bytes
  of UDP payload) and the smallest option. For every received packet below that length,
  so in particular for every packet shorter than header and cookie,
  \<^const>\<open>is_dhcp_msg_for_me\<close> returns 0 and both entry points return the client state as it
  was: address, mask, gateway, name server, server id, lease time, transaction id and
  \<^verbatim>\<open>dhcp_state\<close> are unchanged. The return values are the ordinary ones (0, and \<open>plen\<close>
  from the renew handler); there is no error value. The first assumption says that the
  offsets of \<^verbatim>\<open>net.h\<close> do not overflow 16 bits.
\<close>

theorem short_packet_rejected:
  assumes "unat (UDP_DATA_P n) + 243 < 65536"
    and "unat plen < unat (UDP_DATA_P n) + unat DHCP_OPTION_OFFSET + 3"
    and "plen \<noteq> 0"
  shows "is_dhcp_msg_for_me n buf plen s = (0, s) \<and>
         packetloop_dhcp_initial_ip_assignment n linkup buf plen s = Some (0, s) \<and>
         packetloop_dhcp_renewhandler n linkup buf plen s = Some (plen, s)"
proof -
  from assms(2) have "unat plen < unat (UDP_DATA_P n) + 243"
    by (simp add: DHCP_OPTION_OFFSET_def)
  with assms(1) have "plen < UDP_DATA_P n + DHCP_OPTION_OFFSET + 3"
    by (rule short_length)
  then have m: "is_dhcp_msg_for_me n buf plen s = (0, s)"
    by (simp add: is_dhcp_msg_for_me_def)
  show ?thesis
    using assms(3) m
    by (simp add: packetloop_dhcp_initial_ip_assignment_def packetloop_dhcp_renewhandler_def)
qed

text \<open>The acknowledgment of the examples cut off after 281 bytes, one byte before the cookie ends.\<close>

theorem short_packet_rejected_witness:
  "is_dhcp_msg_for_me frame_offsets ack_7200 281 requesting_3600 = (0, requesting_3600) \<and>
   packetloop_dhcp_initial_ip_assignment frame_offsets True ack_7200 281 requesting_3600
     = Some (0, requesting_3600) \<and>
   packetloop_dhcp_renewhandler frame_offsets True ack_7200 281
      (requesting_3600\<lparr>dhcp_state := 4\<rparr>) = Some (281, requesting_3600\<lparr>dhcp_state := 4\<rparr>)"
  using short_packet_rejected [of frame_offsets 281 ack_7200 requesting_3600 True]
    short_packet_rejected [of frame_offsets 281 ack_7200 "requesting_3600\<lparr>dhcp_state := 4\<rparr>" True]
  by (simp add: frame_offsets_def DHCP_OPTION_OFFSET_def)

subsection \<open>The tick\<close>

text \<open>
  Claim C5, as stated: the countdown never wraps around past zero. It does: the static
  variables start with a countdown of 0, and one tick turns it into \<open>0xffffffff\<close>.
\<close>

theorem dhcp_tick_wraps_at_zero:
  "dhcp_cnt_down dhcp_power_on = 0 \<and>
   dhcp_cnt_down (dhcp_tick dhcp_power_on) = 0xffffffff"
  by (simp add: dhcp_tick_def dhcp_power_on_def)

text \<open>
  Claim C5, amended. \<^const>\<open>dhcp_tick\<close> leaves the all-ones countdown unchanged and otherwise
  subtracts one modulo \<open>2^32\<close>, touching nothing else. Read as a number, the countdown
  becomes one smaller whenever it is neither 0 nor all-ones; a countdown of 0 wraps to
  all-ones, where it then stays.
\<close>

theorem dhcp_tick_decrement:
  "dhcp_tick s =
     s\<lparr>dhcp_cnt_down :=
         (if dhcp_cnt_down s = 0xffffffff then 0xffffffff else dhcp_cnt_down s - 1)\<rparr> \<and>
   unat (dhcp_cnt_down (dhcp_tick s)) =
     (if dhcp_cnt_down s = 0 \<or> dhcp_cnt_down s = 0xffffffff then 4294967295
      else unat (dhcp_cnt_down s) - 1)"
  by (auto simp add: dhcp_tick_def unat_minus_one all_ones)

theorem dhcp_tick_decrement_witness:
  "dhcp_cnt_down (dhcp_tick (dhcp_power_on\<lparr>dhcp_cnt_down := 1800\<rparr>)) = 1799 \<and>
   dhcp_cnt_down (dhcp_tick (dhcp_power_on\<lparr>dhcp_cnt_down := 0xffffffff\<rparr>)) = 0xffffffff \<and>
   dhcp_cnt_down (dhcp_tick (dhcp_power_on\<lparr>dhcp_cnt_down := 0\<rparr>)) = 0xffffffff"
  using dhcp_tick_decrement [of "dhcp_power_on\<lparr>dhcp_cnt_down := 1800\<rparr>"]
    dhcp_tick_decrement [of "dhcp_power_on\<lparr>dhcp_cnt_down := 0xffffffff\<rparr>"]
    dhcp_tick_decrement [of "dhcp_power_on\<lparr>dhcp_cnt_down := 0\<rparr>"]
  by (simp add: dhcp_power_on_def)

subsection \<open>Accepted replies\<close>

lemma accepted_msg:
  "fst (is_dhcp_msg_for_me n buf plen s) \<noteq> 0 \<Longrightarrow>
   is_dhcp_msg_for_me n buf plen s =
     (1, s\<lparr>dhcp_yiaddr := (if buf (UDP_DATA_P n + 16) \<noteq> 0
                             then bytes4 buf (UDP_DATA_P n + 16) else dhcp_yiaddr s)\<rparr>)"
  by (simp add: is_dhcp_msg_for_me_def split: if_splits)

lemma half_eq_0: "((x :: u32) div 2 = 0) = (x < 2)"
proof -
  have "(x div 2 = 0) = (unat (x div 2) = 0)" by (simp add: unat_eq_zero)
  also have "\<dots> = (unat x < 2)"
  proof -
    have "unat (x div 2) = unat x div 2" by (simp add: unat_div)
    then show ?thesis by arith
  qed
  also have "\<dots> = (x < 2)" by (simp add: word_less_nat_alt)
  finally show ?thesis .
qed

lemma eighth_eq_0: "((x :: u32) div 8 = 0) = (x < 8)"
proof -
  have "(x div 8 = 0) = (unat (x div 8) = 0)" by (simp add: unat_eq_zero)
  also have "\<dots> = (unat x < 8)"
  proof -
    have "unat (x div 8) = unat x div 8" by (simp add: unat_div)
    then show ?thesis by arith
  qed
  also have "\<dots> = (x < 8)" by (simp add: word_less_nat_alt)
  finally show ?thesis .
qed

lemma renew_timer_2:
  "set_dhcp_renew_timer 2 s =
     s\<lparr>dhcp_cnt_down := dhcp_opt_leasetime s div 2,
       dhcp_state := (if dhcp_opt_leasetime s < 2 then 0 else dhcp_state s)\<rparr>"
  by (simp add: set_dhcp_renew_timer_def is_dhcp_cnt_down_zero_def Let_def half_eq_0)

lemma renew_timer_8:
  "set_dhcp_renew_timer 8 s =
     s\<lparr>dhcp_cnt_down := dhcp_opt_leasetime s div 8,
       dhcp_state := (if dhcp_opt_leasetime s < 8 then 0 else dhcp_state s)\<rparr>"
  by (simp add: set_dhcp_renew_timer_def is_dhcp_cnt_down_zero_def Let_def eighth_eq_0)

lemma initial_ack:
  assumes "plen \<noteq> 0" and "dhcp_state s \<le> 2"
    and "fst (is_dhcp_msg_for_me n buf plen s) \<noteq> 0"
    and "dhcp_get_message_type n buf plen = Some 5"
  shows "packetloop_dhcp_initial_ip_assignment n True buf plen s =
     Some (1, s\<lparr>dhcp_yiaddr := (if buf (UDP_DATA_P n + 16) \<noteq> 0
                             then bytes4 buf (UDP_DATA_P n + 16) else dhcp_yiaddr s),
                 dhcp_cnt_down := dhcp_opt_leasetime s div 2,
                 dhcp_retry := 0,
                 dhcp_state := (if dhcp_opt_leasetime s < 2 then 0 else 3),
                 broadcast_enabled := False\<rparr>)"
proof -
  from assms(2) have st: "\<not> 2 < dhcp_state s" by (simp add: not_less)
  show ?thesis
    using assms(1,4) st accepted_msg [OF assms(3)]
    by (simp add: packetloop_dhcp_initial_ip_assignment_def renew_timer_2
          enc28j60DisableBroadcast_def)
qed

text \<open>The replies of the examples are accepted by a client that waits for id 7.\<close>

lemma ack_7200_accepted:
  "dhcp_tid s = 7 \<Longrightarrow> fst (is_dhcp_msg_for_me frame_offsets ack_7200 298 s) = 1"
  by (simp add: is_dhcp_msg_for_me_def frame_offsets_def ack_7200_def
      DHCP_OPTION_OFFSET_def DHCP_SRV_SRC_PORT_def verify_tid_unfold)

lemma ack_7200_type: "dhcp_get_message_type frame_offsets ack_7200 298 = Some 5"
  by (simp add: dhcp_get_message_type_def frame_offsets_def ack_7200_def
      DHCP_OPTION_OFFSET_def get_message_type_loop.simps)



lemma nak_7_accepted:
  "dhcp_tid s = 7 \<Longrightarrow> fst (is_dhcp_msg_for_me frame_offsets nak_7 286 s) = 1"
  by (simp add: is_dhcp_msg_for_me_def frame_offsets_def nak_7_def
      DHCP_OPTION_OFFSET_def DHCP_SRV_SRC_PORT_def verify_tid_unfold)

lemma nak_7_type: "dhcp_get_message_type frame_offsets nak_7 286 = Some 6"
  by (simp add: dhcp_get_message_type_def frame_offsets_def nak_7_def
      DHCP_OPTION_OFFSET_def get_message_type_loop.simps)

lemma requesting_3600_fields:
  "dhcp_tid requesting_3600 = 7" "dhcp_state requesting_3600 = 2"
  "dhcp_opt_leasetime requesting_3600 = 3600" "dhcp_opt_mask requesting_3600 = (255, 255, 0, 0)"
  "dhcp_yiaddr requesting_3600 = (192, 0, 2, 50)"
  by (simp_all add: requesting_3600_def)

lemma ack_7200_parsed:
  "dhcp_option_parser frame_offsets ack_7200 298 requesting_3600 =
     Some (1, requesting_3600\<lparr>dhcp_opt_mask := (255, 255, 255, 0),
               dhcp_opt_message_type := 5, dhcp_opt_leasetime := 7200\<rparr>)"
  by (simp add: dhcp_option_parser_def frame_offsets_def ack_7200_def
      DHCP_OPTION_OFFSET_def option_parser_loop.simps option_switch_def bytes4_def
      leasetime_loop.simps requesting_3600_def dhcp_power_on_def)


text \<open>The option parser does not read the variables it does not write.\<close>

lemma accepted_any_state:
  assumes "fst (is_dhcp_msg_for_me n buf plen s) \<noteq> 0" and "dhcp_tid t = dhcp_tid s"
  shows "is_dhcp_msg_for_me n buf plen t =
     (1, t\<lparr>dhcp_yiaddr := (if buf (UDP_DATA_P n + 16) \<noteq> 0
                             then bytes4 buf (UDP_DATA_P n + 16) else dhcp_yiaddr t)\<rparr>)"
  using assms by (simp add: is_dhcp_msg_for_me_def split: if_splits)

lemma option_switch_commute:
  "option_switch buf i l
     (s\<lparr>dhcp_yiaddr := y, dhcp_cnt_down := c, dhcp_retry := r, dhcp_state := st,
        broadcast_enabled := b\<rparr>) =
   (option_switch buf i l s)\<lparr>dhcp_yiaddr := y, dhcp_cnt_down := c, dhcp_retry := r,
        dhcp_state := st, broadcast_enabled := b\<rparr>"
  by (simp add: option_switch_def)

lemma option_parser_loop_commute:
  assumes "option_parser_loop buf plen idx s = Some s'"
  shows "option_parser_loop buf plen idx
           (s\<lparr>dhcp_yiaddr := y, dhcp_cnt_down := c, dhcp_retry := r, dhcp_state := st,
              broadcast_enabled := b\<rparr>) =
         Some (s'\<lparr>dhcp_yiaddr := y, dhcp_cnt_down := c, dhcp_retry := r, dhcp_state := st,
              broadcast_enabled := b\<rparr>)"
  using assms
proof (induction rule: option_parser_loop.raw_induct [rotated 1, consumes 1])
  case (1 loop buf plen idx s s')
  show ?case
  proof (cases "idx + 2 < plen \<and>
      \<not> (buf (idx + 1) < 1 \<or> idx + ucast (buf (idx + 1)) + 1 > plen)")
    case True
    with 1(2) have "loop buf plen
        ((if buf idx = 0 then plen else idx) + (2 + ucast (buf (idx + 1))))
        (option_switch buf idx (buf (idx + 1)) s) = Some s'"
      by (simp split: if_splits)
    from 1(1) [OF this] True show ?thesis
      by (subst option_parser_loop.simps) (simp add: option_switch_commute)
  next
    case False
    with 1(2) have "s' = s" by (auto split: if_splits)
    with False show ?thesis
      by (subst option_parser_loop.simps) auto
  qed
qed

lemma dhcp_option_parser_commute:
  assumes "dhcp_option_parser n buf plen s = Some (q, p)"
  shows "dhcp_option_parser n buf plen
           (s\<lparr>dhcp_yiaddr := y, dhcp_cnt_down := c, dhcp_retry := r, dhcp_state := st,
              broadcast_enabled := b\<rparr>) =
         Some (q, p\<lparr>dhcp_yiaddr := y, dhcp_cnt_down := c, dhcp_retry := r, dhcp_state := st,
              broadcast_enabled := b\<rparr>)"
proof (cases "plen < UDP_DATA_P n + DHCP_OPTION_OFFSET + 3")
  case True
  with assms show ?thesis by (auto simp add: dhcp_option_parser_def)
next
  case False
  with assms have l: "option_parser_loop buf plen (UDP_DATA_P n + DHCP_OPTION_OFFSET) s = Some p"
    and q: "q = 1"
    by (auto simp add: dhcp_option_parser_def split: option.splits)
  from option_parser_loop_commute [OF l] False q show ?thesis
    by (simp add: dhcp_option_parser_def)
qed

text \<open>
  An accepted acknowledgment in both calls of a loop pass. If the lease time held before is
  below 2, the first call ends in INIT and the second returns at once; otherwise the second
  call accepts the same packet, parses it and sets the countdown again.
\<close>

lemma ack_loop_pass:
  assumes "plen \<noteq> 0" and "dhcp_state s \<le> 2"
    and "fst (is_dhcp_msg_for_me n buf plen s) \<noteq> 0"
    and "dhcp_get_message_type n buf plen = Some 5"
    and "dhcp_option_parser n buf plen s = Some (q, p)"
  shows "dhcp_loop_pass n True up2 buf plen 1 s =
     Some (1,
       if dhcp_opt_leasetime s < 2 then
         (plen, s\<lparr>dhcp_yiaddr := (if buf (UDP_DATA_P n + 16) \<noteq> 0
                             then bytes4 buf (UDP_DATA_P n + 16) else dhcp_yiaddr s),
                   dhcp_cnt_down := 0, dhcp_retry := 0, dhcp_state := 0,
                   broadcast_enabled := False\<rparr>)
       else
         (0, p\<lparr>dhcp_yiaddr := (if buf (UDP_DATA_P n + 16) \<noteq> 0
                             then bytes4 buf (UDP_DATA_P n + 16) else dhcp_yiaddr s),
                dhcp_cnt_down := dhcp_opt_leasetime p div 2, dhcp_retry := 0,
                dhcp_state := (if dhcp_opt_leasetime p < 2 then 0 else 3),
                broadcast_enabled := False\<rparr>))"
proof -
  define y where "y = (if buf (UDP_DATA_P n + 16) \<noteq> 0
            then bytes4 buf (UDP_DATA_P n + 16) else dhcp_yiaddr s)"
  let ?s1 = "s\<lparr>dhcp_yiaddr := y, dhcp_cnt_down := dhcp_opt_leasetime s div 2,
                dhcp_retry := 0,
                dhcp_state := (if dhcp_opt_leasetime s < 2 then 0 else 3),
                broadcast_enabled := False\<rparr>"
  have i: "packetloop_dhcp_initial_ip_assignment n True buf plen s = Some (1, ?s1)"
    unfolding y_def using assms(1-4) by (rule initial_ack)
  have "dhcp_loop_pass n True up2 buf plen 1 s =
     Some (1,
       if dhcp_opt_leasetime s < 2 then
         (plen, s\<lparr>dhcp_yiaddr := y, dhcp_cnt_down := 0, dhcp_retry := 0, dhcp_state := 0,
                   broadcast_enabled := False\<rparr>)
       else
         (0, p\<lparr>dhcp_yiaddr := y,
                dhcp_cnt_down := dhcp_opt_leasetime p div 2, dhcp_retry := 0,
                dhcp_state := (if dhcp_opt_leasetime p < 2 then 0 else 3),
                broadcast_enabled := False\<rparr>))"
  proof (cases "dhcp_opt_leasetime s < 2")
    case True
    then have z: "dhcp_opt_leasetime s div 2 = 0" by (simp add: half_eq_0)
    have "packetloop_dhcp_renewhandler n up2 buf plen ?s1 = Some (plen, ?s1)"
      using True by (simp add: packetloop_dhcp_renewhandler_def)
    with i True z show ?thesis by (simp add: dhcp_loop_pass_def)
  next
    case False
    let ?b = "s\<lparr>dhcp_yiaddr := y, dhcp_cnt_down := dhcp_opt_leasetime s div 2,
                dhcp_retry := 0, dhcp_state := 3, broadcast_enabled := False\<rparr>"
    have e: "?s1 = ?b" using False by simp
    have t: "dhcp_tid ?b = dhcp_tid s" by simp
    have "(if buf (UDP_DATA_P n + 16) \<noteq> 0
            then bytes4 buf (UDP_DATA_P n + 16) else dhcp_yiaddr ?b) = y"
      by (simp add: y_def)
    with accepted_any_state [OF assms(3) t]
    have m: "is_dhcp_msg_for_me n buf plen ?b = (1, ?b)"
      by simp
    have x: "enc28j60DisableBroadcast (?b\<lparr>dhcp_state := 3, dhcp_retry := 0\<rparr>) = ?b"
      by (simp add: enc28j60DisableBroadcast_def)
    have "packetloop_dhcp_renewhandler n up2 buf plen ?b =
        (case dhcp_option_parser n buf plen
                (enc28j60DisableBroadcast (?b\<lparr>dhcp_state := 3, dhcp_retry := 0\<rparr>)) of
           None \<Rightarrow> None
         | Some (xa, s2) \<Rightarrow> Some (0, set_dhcp_renew_timer 2 s2))"
      using assms(1,4) by (simp add: packetloop_dhcp_renewhandler_def m)
    also have "\<dots> =
        Some (0, set_dhcp_renew_timer 2
                   (p\<lparr>dhcp_yiaddr := y, dhcp_cnt_down := dhcp_opt_leasetime s div 2,
                      dhcp_retry := 0, dhcp_state := 3, broadcast_enabled := False\<rparr>))"
      by (simp only: x dhcp_option_parser_commute [OF assms(5)] option.case prod.case)
    finally have "packetloop_dhcp_renewhandler n up2 buf plen ?b =
        Some (0, set_dhcp_renew_timer 2
                   (p\<lparr>dhcp_yiaddr := y, dhcp_cnt_down := dhcp_opt_leasetime s div 2,
                      dhcp_retry := 0, dhcp_state := 3, broadcast_enabled := False\<rparr>))" .
    with i False show ?thesis
      unfolding e by (simp add: dhcp_loop_pass_def renew_timer_2)
  qed
  then show ?thesis unfolding y_def .
qed

lemma ack_7_accepted:
  "dhcp_tid s = 7 \<Longrightarrow> fst (is_dhcp_msg_for_me frame_offsets ack_7 292 s) = 1"
  by (simp add: is_dhcp_msg_for_me_def frame_offsets_def ack_7_def ack_1_def
      DHCP_OPTION_OFFSET_def DHCP_SRV_SRC_PORT_def verify_tid_unfold)

lemma ack_7_type: "dhcp_get_message_type frame_offsets ack_7 292 = Some 5"
  by (simp add: dhcp_get_message_type_def frame_offsets_def ack_7_def ack_1_def
      DHCP_OPTION_OFFSET_def get_message_type_loop.simps)

lemma ack_7_parsed:
  "dhcp_option_parser frame_offsets ack_7 292 requesting_3600 =
     Some (1, requesting_3600\<lparr>dhcp_opt_message_type := 5, dhcp_opt_leasetime := 7\<rparr>)"
  by (simp add: dhcp_option_parser_def frame_offsets_def ack_7_def ack_1_def
      DHCP_OPTION_OFFSET_def option_parser_loop.simps option_switch_def bytes4_def
      leasetime_loop.simps requesting_3600_def dhcp_power_on_def)

lemma yiaddr_of_examples:
  "ack_7200 (UDP_DATA_P frame_offsets + 16) = 192"
  "bytes4 ack_7200 (UDP_DATA_P frame_offsets + 16) = (192, 0, 2, 50)"
  "ack_1 (UDP_DATA_P frame_offsets + 16) = 192"
  "bytes4 ack_1 (UDP_DATA_P frame_offsets + 16) = (192, 0, 2, 50)"
  "ack_7 (UDP_DATA_P frame_offsets + 16) = 192"
  "bytes4 ack_7 (UDP_DATA_P frame_offsets + 16) = (192, 0, 2, 50)"
  by (simp_all add: frame_offsets_def ack_7200_def ack_1_def ack_7_def bytes4_def)

lemma pass_ack_7200:
  "dhcp_loop_pass frame_offsets True True ack_7200 298 1 requesting_3600 =
     Some (1, 0, bound_7200)"
proof -
  have a: "fst (is_dhcp_msg_for_me frame_offsets ack_7200 298 requesting_3600) \<noteq> 0"
    by (simp add: ack_7200_accepted requesting_3600_fields)
  from ack_loop_pass [OF _ _ a ack_7200_type ack_7200_parsed, of True] show ?thesis
    by (simp add: requesting_3600_fields yiaddr_of_examples bound_7200_def)
qed


lemma pass_ack_7:
  "dhcp_loop_pass frame_offsets True True ack_7 292 1 requesting_3600 =
     Some (1, 0, bound_7)"
proof -
  have a: "fst (is_dhcp_msg_for_me frame_offsets ack_7 292 requesting_3600) \<noteq> 0"
    by (simp add: ack_7_accepted requesting_3600_fields)
  from ack_loop_pass [OF _ _ a ack_7_type ack_7_parsed, of True] show ?thesis
    by (simp add: requesting_3600_fields yiaddr_of_examples bound_7_def)
qed

subsection \<open>The acknowledgment during the initial assignment\<close>




subsection \<open>Negative acknowledgments\<close>

text \<open>
  Claim C6. An accepted reply of message type 6 puts the client into INIT at once: in the
  initial assignment (link up, state INIT, SELECTING or REQUESTING) and in the renew
  handler (state BOUND or REBINDING). Both calls return 0, the ordinary value for a handled
  packet; the only trace of the loss is \<^verbatim>\<open>dhcp_state\<close>. The lease variables are not cleared;
  as for every accepted reply, a \<^verbatim>\<open>yiaddr\<close> with a non-zero first byte is copied.
\<close>

theorem nak_resets_to_init:
  assumes "plen \<noteq> 0"
    and "fst (is_dhcp_msg_for_me n buf plen s) \<noteq> 0"
    and "dhcp_get_message_type n buf plen = Some 6"
  shows "(dhcp_state s \<le> 2 \<longrightarrow>
            packetloop_dhcp_initial_ip_assignment n True buf plen s =
              Some (0, s\<lparr>dhcp_yiaddr := (if buf (UDP_DATA_P n + 16) \<noteq> 0
                            then bytes4 buf (UDP_DATA_P n + 16) else dhcp_yiaddr s),
                          dhcp_state := 0\<rparr>)) \<and>
         (3 \<le> dhcp_state s \<longrightarrow>
            packetloop_dhcp_renewhandler n linkup buf plen s =
              Some (0, s\<lparr>dhcp_yiaddr := (if buf (UDP_DATA_P n + 16) \<noteq> 0
                            then bytes4 buf (UDP_DATA_P n + 16) else dhcp_yiaddr s),
                          dhcp_state := 0\<rparr>))"
proof -
  have a: "(dhcp_state s \<le> 2) = (\<not> 2 < dhcp_state s)" by (simp add: not_less)
  have b: "(3 \<le> dhcp_state s) = (\<not> dhcp_state s < 3)" by (simp add: not_less)
  show ?thesis
    unfolding a b
    using assms(1,3) accepted_msg [OF assms(2)]
    by (simp add: packetloop_dhcp_initial_ip_assignment_def packetloop_dhcp_renewhandler_def)
qed

theorem nak_resets_to_init_witness:
  "packetloop_dhcp_initial_ip_assignment frame_offsets True nak_7 286 requesting_3600 =
     Some (0, requesting_3600\<lparr>dhcp_state := 0\<rparr>) \<and>
   packetloop_dhcp_renewhandler frame_offsets True nak_7 286 (bound_3600\<lparr>dhcp_state := 4\<rparr>) =
     Some (0, bound_3600\<lparr>dhcp_state := 0\<rparr>)"
proof -
  have a: "fst (is_dhcp_msg_for_me frame_offsets nak_7 286 requesting_3600) \<noteq> 0"
    by (simp add: nak_7_accepted requesting_3600_fields)
  have b: "fst (is_dhcp_msg_for_me frame_offsets nak_7 286 (bound_3600\<lparr>dhcp_state := 4\<rparr>)) \<noteq> 0"
    by (simp add: nak_7_accepted requesting_3600_fields bound_3600_def)
  have y: "nak_7 (UDP_DATA_P frame_offsets + 16) = 0"
    by (simp add: frame_offsets_def nak_7_def)
  from nak_resets_to_init [OF _ a nak_7_type, of True]
    nak_resets_to_init [OF _ b nak_7_type, of True]
  show ?thesis
    by (simp add: requesting_3600_fields y bound_3600_def)
qed

subsection \<open>A lease time below the divisor\<close>



subsection \<open>Waiting for the countdown\<close>

lemma funpow_dhcp_tick:
  "k \<le> unat (dhcp_cnt_down s) \<Longrightarrow> dhcp_cnt_down s \<noteq> 0xffffffff \<Longrightarrow>
   (dhcp_tick ^^ k) s = s\<lparr>dhcp_cnt_down := dhcp_cnt_down s - of_nat k\<rparr>"
proof (induction k)
  case 0
  then show ?case by simp
next
  case (Suc k)
  from Suc.prems have k: "k < unat (dhcp_cnt_down s)" by simp
  then have "k \<le> unat (dhcp_cnt_down s)" by simp
  then have uk: "unat (of_nat k :: u32) = k" by (rule le_unat_uoi)
  with k have le: "(of_nat k :: u32) \<le> dhcp_cnt_down s" by (simp add: word_le_nat_alt)
  then have "unat (dhcp_cnt_down s - of_nat k) = unat (dhcp_cnt_down s) - k"
    using uk by (simp add: unat_sub)
  moreover have "unat (dhcp_cnt_down s) < 4294967295"
  proof -
    have "unat (dhcp_cnt_down s) \<noteq> unat (0xffffffff :: u32)"
      using Suc.prems(2) by (simp only: word_unat_eq_iff not_False_eq_True)
    moreover have "unat (dhcp_cnt_down s) < 2 ^ 32"
      using unsigned_less [of "dhcp_cnt_down s"] by simp
    ultimately show ?thesis by simp
  qed
  ultimately have "unat (dhcp_cnt_down s - of_nat k) \<noteq> unat (0xffffffff :: u32)" by simp
  then have ne: "dhcp_cnt_down s - of_nat k \<noteq> 0xffffffff" by auto
  from Suc.IH k Suc.prems(2)
  have ih: "(dhcp_tick ^^ k) s = s\<lparr>dhcp_cnt_down := dhcp_cnt_down s - of_nat k\<rparr>" by simp
  have "(dhcp_tick ^^ Suc k) s = dhcp_tick ((dhcp_tick ^^ k) s)" by simp
  also have "\<dots> = dhcp_tick (s\<lparr>dhcp_cnt_down := dhcp_cnt_down s - of_nat k\<rparr>)"
    by (simp only: ih)
  also have "\<dots> = s\<lparr>dhcp_cnt_down := dhcp_cnt_down s - of_nat (Suc k)\<rparr>"
    using ne by (simp add: dhcp_tick_def diff_diff_eq add.commute)
  finally show ?case .
qed

text \<open>Unless the countdown is all-ones, the ticks bring it to zero and change nothing else.\<close>

lemma expire_eq:
  "dhcp_cnt_down s \<noteq> 0xffffffff \<Longrightarrow> expire s = s\<lparr>dhcp_cnt_down := 0\<rparr>"
  by (simp add: expire_def funpow_dhcp_tick)

subsection \<open>Exponential back-off in SELECTING\<close>

lemma init_poll:
  "dhcp_state s = 0 \<Longrightarrow>
   packetloop_dhcp_initial_ip_assignment n True buf 0 s =
     Some (0, s\<lparr>dhcp_cnt_down := 4, dhcp_retry := 4, dhcp_state := 1,
                 broadcast_enabled := True,
                 transmitted := transmitted s @ [discover_message (dhcp_tid s)]\<rparr>)"
  by (simp add: packetloop_dhcp_initial_ip_assignment_def set_dhcp_retry_timer_def
      send_dhcp_discover_def send_udp_transmit_def enc28j60EnableBroadcast_def)

lemma timeout_step:
  assumes "dhcp_cnt_down s \<noteq> 0xffffffff" and "dhcp_state s = 1"
  shows "packetloop_dhcp_initial_ip_assignment n True buf 0 (expire s) =
     Some (0, if 32 < push_bit 1 (dhcp_retry s)
              then s\<lparr>dhcp_tid := dhcp_tid s + 1, dhcp_cnt_down := 0,
                     dhcp_retry := push_bit 1 (dhcp_retry s), dhcp_state := 0\<rparr>
              else s\<lparr>dhcp_tid := dhcp_tid s + 1,
                     dhcp_cnt_down := ucast (push_bit 1 (dhcp_retry s)),
                     dhcp_retry := push_bit 1 (dhcp_retry s),
                     transmitted := transmitted s @ [discover_message (dhcp_tid s + 1)]\<rparr>)"
  using assms(2)
  by (simp add: expire_eq [OF assms(1)] packetloop_dhcp_initial_ip_assignment_def
      is_dhcp_cnt_down_zero_def set_dhcp_retry_timer_def send_dhcp_discover_def
      send_udp_transmit_def Let_def)

lemma timeouts_1:
  assumes "dhcp_state s = 1" and "dhcp_retry s = 4" and "dhcp_cnt_down s = 4"
  shows "unanswered_timeouts n buf (Suc 0) s =
     Some (s\<lparr>dhcp_tid := dhcp_tid s + 1, dhcp_cnt_down := 8, dhcp_retry := 8,
              transmitted := transmitted s @ [discover_message (dhcp_tid s + 1)]\<rparr>)"
proof -
  have a: "dhcp_cnt_down s \<noteq> 0xffffffff" using assms(3) by simp
  have "unanswered_timeouts n buf (Suc 0) s =
        map_option snd (packetloop_dhcp_initial_ip_assignment n True buf 0 (expire s))"
    by (simp only: unanswered_timeouts.simps option.case)
  also have "\<dots> = Some (s\<lparr>dhcp_tid := dhcp_tid s + 1, dhcp_cnt_down := 8, dhcp_retry := 8,
              transmitted := transmitted s @ [discover_message (dhcp_tid s + 1)]\<rparr>)"
    using assms(2) by (simp add: timeout_step [OF a assms(1)])
  finally show ?thesis .
qed

lemma timeouts_2:
  assumes "dhcp_state s = 1" and "dhcp_retry s = 4" and "dhcp_cnt_down s = 4"
  shows "unanswered_timeouts n buf (Suc (Suc 0)) s =
     Some (s\<lparr>dhcp_tid := dhcp_tid s + 2, dhcp_cnt_down := 16, dhcp_retry := 16,
              transmitted := transmitted s @
                [discover_message (dhcp_tid s + 1), discover_message (dhcp_tid s + 2)]\<rparr>)"
    (is "_ = Some ?r")
proof -
  let ?s1 = "s\<lparr>dhcp_tid := dhcp_tid s + 1, dhcp_cnt_down := 8, dhcp_retry := 8,
              transmitted := transmitted s @ [discover_message (dhcp_tid s + 1)]\<rparr>"
  have a: "dhcp_cnt_down ?s1 \<noteq> 0xffffffff" by simp
  have b: "dhcp_state ?s1 = 1" using assms(1) by simp
  have "unanswered_timeouts n buf (Suc (Suc 0)) s =
        map_option snd (packetloop_dhcp_initial_ip_assignment n True buf 0 (expire ?s1))"
    by (subst unanswered_timeouts.simps(2)) (simp only: timeouts_1 [OF assms] option.case)
  also have "\<dots> = Some ?r"
    by (simp add: timeout_step [OF a b] add.assoc)
  finally show ?thesis .
qed

lemma timeouts_3:
  assumes "dhcp_state s = 1" and "dhcp_retry s = 4" and "dhcp_cnt_down s = 4"
  shows "unanswered_timeouts n buf (Suc (Suc (Suc 0))) s =
     Some (s\<lparr>dhcp_tid := dhcp_tid s + 3, dhcp_cnt_down := 32, dhcp_retry := 32,
              transmitted := transmitted s @
                [discover_message (dhcp_tid s + 1), discover_message (dhcp_tid s + 2),
                 discover_message (dhcp_tid s + 3)]\<rparr>)"
    (is "_ = Some ?r")
proof -
  let ?s2 = "s\<lparr>dhcp_tid := dhcp_tid s + 2, dhcp_cnt_down := 16, dhcp_retry := 16,
              transmitted := transmitted s @
                [discover_message (dhcp_tid s + 1), discover_message (dhcp_tid s + 2)]\<rparr>"
  have a: "dhcp_cnt_down ?s2 \<noteq> 0xffffffff" by simp
  have b: "dhcp_state ?s2 = 1" using assms(1) by simp
  have "unanswered_timeouts n buf (Suc (Suc (Suc 0))) s =
        map_option snd (packetloop_dhcp_initial_ip_assignment n True buf 0 (expire ?s2))"
    by (subst unanswered_timeouts.simps(2)) (simp only: timeouts_2 [OF assms] option.case)
  also have "\<dots> = Some ?r"
    by (simp add: timeout_step [OF a b] add.assoc)
  finally show ?thesis .
qed

lemma timeouts_4:
  assumes "dhcp_state s = 1" and "dhcp_retry s = 4" and "dhcp_cnt_down s = 4"
  shows "unanswered_timeouts n buf (Suc (Suc (Suc (Suc 0)))) s =
     Some (s\<lparr>dhcp_tid := dhcp_tid s + 4, dhcp_cnt_down := 0, dhcp_retry := 64,
              dhcp_state := 0,
              transmitted := transmitted s @
                [discover_message (dhcp_tid s + 1), discover_message (dhcp_tid s + 2),
                 discover_message (dhcp_tid s + 3)]\<rparr>)"
    (is "_ = Some ?r")
proof -
  let ?s3 = "s\<lparr>dhcp_tid := dhcp_tid s + 3, dhcp_cnt_down := 32, dhcp_retry := 32,
              transmitted := transmitted s @
                [discover_message (dhcp_tid s + 1), discover_message (dhcp_tid s + 2),
                 discover_message (dhcp_tid s + 3)]\<rparr>"
  have a: "dhcp_cnt_down ?s3 \<noteq> 0xffffffff" by simp
  have b: "dhcp_state ?s3 = 1" using assms(1) by simp
  have "unanswered_timeouts n buf (Suc (Suc (Suc (Suc 0)))) s =
        map_option snd (packetloop_dhcp_initial_ip_assignment n True buf 0 (expire ?s3))"
    by (subst unanswered_timeouts.simps(2)) (simp only: timeouts_3 [OF assms] option.case)
  also have "\<dots> = Some ?r"
    by (simp add: timeout_step [OF a b] add.assoc)
  finally show ?thesis .
qed

lemma selecting_schedule:
  assumes "dhcp_state s = 1" and "dhcp_retry s = 4" and "dhcp_cnt_down s = 4"
  shows "(N \<le> 3 \<longrightarrow>
          (\<exists>s'. unanswered_timeouts n buf N s = Some s' \<and> dhcp_state s' = 1 \<and>
                dhcp_cnt_down s' = ucast (dhcp_retry s') \<and>
                unat (dhcp_cnt_down s') = min (4 * 2 ^ N) 32 \<and>
                dhcp_tid s' = dhcp_tid s + of_nat N \<and>
                transmitted s' = transmitted s @
                  map (\<lambda>i. discover_message (dhcp_tid s + of_nat i)) [1..<Suc N])) \<and>
         (\<exists>s'. unanswered_timeouts n buf 4 s = Some s' \<and> dhcp_state s' = 0 \<and>
               dhcp_retry s' = 64 \<and> transmitted s' = transmitted s @
                  map (\<lambda>i. discover_message (dhcp_tid s + of_nat i)) [1..<4])"
    (is "(N \<le> 3 \<longrightarrow> ?P N) \<and> ?Q")
proof -
  have up: "[1..<4] = [1, 2, 3]" "[1..<Suc 0] = []" "[1..<Suc (Suc 0)] = [1]"
    "[1..<Suc (Suc (Suc 0))] = [1, 2]" "[1..<Suc (Suc (Suc (Suc 0)))] = [1, 2, 3]"
    by (simp_all add: upt_rec)
  have n4: "(4 :: nat) = Suc (Suc (Suc (Suc 0)))" by simp
  have p0: "?P 0" using assms by simp
  have p1: "?P (Suc 0)"
    using assms by (simp only: timeouts_1 [OF assms] up) simp
  have p2: "?P (Suc (Suc 0))"
    using assms by (simp only: timeouts_2 [OF assms] up) simp
  have p3: "?P (Suc (Suc (Suc 0)))"
    using assms by (simp only: timeouts_3 [OF assms] up) simp
  have q: ?Q
    using assms by (simp only: n4 timeouts_4 [OF assms] up) simp
  have "N \<le> 3 \<Longrightarrow> N = 0 \<or> N = Suc 0 \<or> N = Suc (Suc 0) \<or> N = Suc (Suc (Suc 0))"
    by arith
  with p0 p1 p2 p3 have "N \<le> 3 \<longrightarrow> ?P N" by blast
  with q show ?thesis by blast
qed

lemma selecting_7_fields:
  "dhcp_state selecting_7 = 1" "dhcp_retry selecting_7 = 4" "dhcp_cnt_down selecting_7 = 4"
  "dhcp_tid selecting_7 = 7"
  by (simp_all add: selecting_7_def)

lemma selecting_7_entered:
  "packetloop_dhcp_initial_ip_assignment frame_offsets True no_packet 0
     (init_dhcp 7 dhcp_power_on) = Some (0, selecting_7)"
proof -
  have "dhcp_state (init_dhcp 7 dhcp_power_on) = 0" by (simp add: init_dhcp_def)
  from init_poll [OF this] show ?thesis
    by (simp add: init_dhcp_def selecting_7_def dhcp_power_on_def)
qed

text \<open>
  Claim C2, as stated: three unanswered timeouts in SELECTING end in INIT. Started with
  \<^verbatim>\<open>init_dhcp(7)\<close>, the client enters SELECTING on the first call; after three unanswered
  intervals (4, 8 and 16 seconds) it is still in SELECTING, with 32 seconds pending.
\<close>

theorem three_timeouts_still_selecting:
  "packetloop_dhcp_initial_ip_assignment frame_offsets True no_packet 0
     (init_dhcp 7 dhcp_power_on) = Some (0, selecting_7) \<and>
   map_option dhcp_state (unanswered_timeouts frame_offsets no_packet 3 selecting_7) = Some 1 \<and>
   map_option dhcp_cnt_down (unanswered_timeouts frame_offsets no_packet 3 selecting_7)
     = Some 32"
  using timeouts_3 [OF selecting_7_fields(1-3), of frame_offsets no_packet]
  by (simp add: selecting_7_entered selecting_7_fields numeral_3_eq_3
      del: unanswered_timeouts.simps)

text \<open>
  Claim C2, amended. The first call in INIT (link up, no packet) enters SELECTING with a
  retry interval of 4 seconds and sends the discovery. After \<open>N \<le> 3\<close> unanswered intervals,
  each of which increments the transaction id and sends the discovery again, the client is
  still in SELECTING and the pending interval is \<open>min (4 * 2 ^ N) 32\<close> seconds: 4, 8, 16, 32.
  Only the fourth expiry, which doubles the interval to 64 and so exceeds 32, returns the
  state to INIT; no discovery is sent then.
\<close>

theorem selecting_backoff:
  assumes "dhcp_state s = 0"
  shows "\<exists>s0. packetloop_dhcp_initial_ip_assignment n True buf 0 s = Some (0, s0) \<and>
           dhcp_state s0 = 1 \<and> dhcp_cnt_down s0 = 4 \<and>
           transmitted s0 = transmitted s @ [discover_message (dhcp_tid s)] \<and>
           (\<forall>N \<le> 3. \<exists>s'. unanswered_timeouts n buf N s0 = Some s' \<and> dhcp_state s' = 1 \<and>
                unat (dhcp_cnt_down s') = min (4 * 2 ^ N) 32 \<and>
                dhcp_tid s' = dhcp_tid s + of_nat N \<and>
                transmitted s' = transmitted s0 @
                  map (\<lambda>i. discover_message (dhcp_tid s + of_nat i)) [1..<Suc N]) \<and>
           (\<exists>s'. unanswered_timeouts n buf 4 s0 = Some s' \<and> dhcp_state s' = 0 \<and>
                transmitted s' = transmitted s0 @
                  map (\<lambda>i. discover_message (dhcp_tid s + of_nat i)) [1..<4])"
proof -
  let ?s0 = "s\<lparr>dhcp_cnt_down := 4, dhcp_retry := 4, dhcp_state := 1,
                 broadcast_enabled := True,
                 transmitted := transmitted s @ [discover_message (dhcp_tid s)]\<rparr>"
  have f: "dhcp_state ?s0 = 1" "dhcp_retry ?s0 = 4" "dhcp_cnt_down ?s0 = 4" by simp_all
  have t: "dhcp_tid ?s0 = dhcp_tid s" by simp
  have "\<exists>s'. unanswered_timeouts n buf N ?s0 = Some s' \<and> dhcp_state s' = 1 \<and>
                unat (dhcp_cnt_down s') = min (4 * 2 ^ N) 32 \<and>
                dhcp_tid s' = dhcp_tid s + of_nat N \<and>
                transmitted s' = transmitted ?s0 @
                  map (\<lambda>i. discover_message (dhcp_tid s + of_nat i)) [1..<Suc N]"
    if "N \<le> 3" for N
    using selecting_schedule [OF f, of N n buf] that unfolding t by blast
  moreover have "\<exists>s'. unanswered_timeouts n buf 4 ?s0 = Some s' \<and> dhcp_state s' = 0 \<and>
                transmitted s' = transmitted ?s0 @
                  map (\<lambda>i. discover_message (dhcp_tid s + of_nat i)) [1..<4]"
    using selecting_schedule [OF f, of 0 n buf] unfolding t by blast
  moreover have "dhcp_state ?s0 = 1 \<and> dhcp_cnt_down ?s0 = 4 \<and>
      transmitted ?s0 = transmitted s @ [discover_message (dhcp_tid s)]" by simp
  ultimately show ?thesis
    using init_poll [OF assms, of n buf] by blast
qed

theorem selecting_backoff_witness:
  "\<exists>s0. packetloop_dhcp_initial_ip_assignment frame_offsets True no_packet 0
           (init_dhcp 7 dhcp_power_on) = Some (0, s0) \<and>
         dhcp_state s0 = 1 \<and> dhcp_cnt_down s0 = 4 \<and>
         (\<exists>s'. unanswered_timeouts frame_offsets no_packet 2 s0 = Some s' \<and>
               dhcp_state s' = 1 \<and> unat (dhcp_cnt_down s') = 16 \<and> dhcp_tid s' = 9) \<and>
         (\<exists>s'. unanswered_timeouts frame_offsets no_packet 4 s0 = Some s' \<and>
               dhcp_state s' = 0)"
proof -
  have i: "dhcp_state (init_dhcp 7 dhcp_power_on) = 0" by (simp add: init_dhcp_def)
  have t: "dhcp_tid (init_dhcp 7 dhcp_power_on) = 7" by (simp add: init_dhcp_def)
  from selecting_backoff [OF i, of frame_offsets no_packet]
  obtain s0 where a: "packetloop_dhcp_initial_ip_assignment frame_offsets True no_packet 0
           (init_dhcp 7 dhcp_power_on) = Some (0, s0)"
    and b: "dhcp_state s0 = 1" "dhcp_cnt_down s0 = 4"
    and c: "\<forall>N \<le> 3. \<exists>s'. unanswered_timeouts frame_offsets no_packet N s0 = Some s' \<and>
                dhcp_state s' = 1 \<and> unat (dhcp_cnt_down s') = min (4 * 2 ^ N) 32 \<and>
                dhcp_tid s' = dhcp_tid (init_dhcp 7 dhcp_power_on) + of_nat N \<and>
                transmitted s' = transmitted s0 @
                  map (\<lambda>i. discover_message (dhcp_tid (init_dhcp 7 dhcp_power_on) + of_nat i))
                    [1..<Suc N]"
    and d: "\<exists>s'. unanswered_timeouts frame_offsets no_packet 4 s0 = Some s' \<and>
                dhcp_state s' = 0 \<and>
                transmitted s' = transmitted s0 @
                  map (\<lambda>i. discover_message (dhcp_tid (init_dhcp 7 dhcp_power_on) + of_nat i))
                    [1..<4]"
    by blast
  from c have "\<exists>s'. unanswered_timeouts frame_offsets no_packet 2 s0 = Some s' \<and>
                dhcp_state s' = 1 \<and> unat (dhcp_cnt_down s') = min (4 * 2 ^ 2) 32 \<and>
                dhcp_tid s' = dhcp_tid (init_dhcp 7 dhcp_power_on) + of_nat 2 \<and>
                transmitted s' = transmitted s0 @
                  map (\<lambda>i. discover_message (dhcp_tid (init_dhcp 7 dhcp_power_on) + of_nat i))
                    [1..<Suc 2]"
    by (rule allE [of _ 2]) simp
  then have "\<exists>s'. unanswered_timeouts frame_offsets no_packet 2 s0 = Some s' \<and>
               dhcp_state s' = 1 \<and> unat (dhcp_cnt_down s') = 16 \<and> dhcp_tid s' = 9"
    unfolding t by auto
  with a b d show ?thesis by blast
qed

subsection \<open>Renewal\<close>

lemma eighth_not_all_ones: "(x :: u32) div 8 \<noteq> 0xffffffff"
proof -
  have "unat (x div 8) = unat x div 8" by (simp add: unat_div)
  moreover have "unat x < 2 ^ 32" using unsigned_less [of x] by simp
  ultimately have "unat (x div 8) \<noteq> unat (0xffffffff :: u32)" by simp
  then show ?thesis by auto
qed

lemma half_not_all_ones: "(x :: u32) div 2 \<noteq> 0xffffffff"
proof -
  have "unat (x div 2) = unat x div 2" by (simp add: unat_div)
  moreover have "unat x < 2 ^ 32" using unsigned_less [of x] by simp
  ultimately have "unat (x div 2) \<noteq> unat (0xffffffff :: u32)" by simp
  then show ?thesis by auto
qed

text \<open>The option parser only writes the option variables.\<close>

lemma option_switch_keeps:
  "dhcp_state (option_switch buf i l s) = dhcp_state s \<and>
   dhcp_retry (option_switch buf i l s) = dhcp_retry s \<and>
   dhcp_tid (option_switch buf i l s) = dhcp_tid s \<and>
   dhcp_yiaddr (option_switch buf i l s) = dhcp_yiaddr s \<and>
   broadcast_enabled (option_switch buf i l s) = broadcast_enabled s \<and>
   transmitted (option_switch buf i l s) = transmitted s"
  by (simp add: option_switch_def)

lemma option_parser_loop_keeps:
  assumes "option_parser_loop buf plen idx s = Some s'"
  shows "dhcp_state s' = dhcp_state s \<and> dhcp_retry s' = dhcp_retry s \<and>
         dhcp_tid s' = dhcp_tid s \<and> dhcp_yiaddr s' = dhcp_yiaddr s \<and>
         broadcast_enabled s' = broadcast_enabled s \<and> transmitted s' = transmitted s"
  using assms
proof (induction rule: option_parser_loop.raw_induct [rotated 1, consumes 1])
  case (1 loop buf plen idx s s')
  show ?case
  proof (cases "idx + 2 < plen \<and>
      \<not> (buf (idx + 1) < 1 \<or> idx + ucast (buf (idx + 1)) + 1 > plen)")
    case True
    with 1(2) have "loop buf plen
        ((if buf idx = 0 then plen else idx) + (2 + ucast (buf (idx + 1))))
        (option_switch buf idx (buf (idx + 1)) s) = Some s'"
      by (simp split: if_splits)
    from 1(1) [OF this] show ?thesis by (simp add: option_switch_keeps)
  next
    case False
    with 1(2) have "s' = s" by (auto split: if_splits)
    then show ?thesis by simp
  qed
qed

lemma dhcp_option_parser_keeps:
  assumes "dhcp_option_parser n buf plen s = Some (r, s')"
  shows "dhcp_state s' = dhcp_state s \<and> dhcp_retry s' = dhcp_retry s \<and>
         dhcp_tid s' = dhcp_tid s \<and> dhcp_yiaddr s' = dhcp_yiaddr s \<and>
         broadcast_enabled s' = broadcast_enabled s \<and> transmitted s' = transmitted s"
proof (cases "plen < UDP_DATA_P n + DHCP_OPTION_OFFSET + 3")
  case True
  with assms show ?thesis by (simp add: dhcp_option_parser_def)
next
  case False
  with assms have "option_parser_loop buf plen (UDP_DATA_P n + DHCP_OPTION_OFFSET) s = Some s'"
    by (simp add: dhcp_option_parser_def split: option.splits)
  then show ?thesis by (rule option_parser_loop_keeps)
qed

text \<open>Both ways into BOUND leave half of the committed lease time in the countdown.\<close>

lemma renew_ack:
  assumes "plen \<noteq> 0" and "3 \<le> dhcp_state s"
    and "fst (is_dhcp_msg_for_me n buf plen s) \<noteq> 0"
    and "dhcp_get_message_type n buf plen = Some 5"
    and "packetloop_dhcp_renewhandler n up buf plen s = Some (r, b)"
  shows "r = 0 \<and> dhcp_cnt_down b = dhcp_opt_leasetime b div 2 \<and> dhcp_retry b = 0 \<and>
         dhcp_state b = (if dhcp_opt_leasetime b < 2 then 0 else 3) \<and>
         broadcast_enabled b = False"
proof -
  from assms(2) have st: "\<not> dhcp_state s < 3" by (simp add: not_less)
  let ?s1 = "enc28j60DisableBroadcast
     (s\<lparr>dhcp_yiaddr := (if buf (UDP_DATA_P n + 16) \<noteq> 0
          then bytes4 buf (UDP_DATA_P n + 16) else dhcp_yiaddr s),
        dhcp_state := 3, dhcp_retry := 0\<rparr>)"
  from assms(5) st assms(1,4) accepted_msg [OF assms(3)]
  obtain q s2 where p: "dhcp_option_parser n buf plen ?s1 = Some (q, s2)"
    and b: "b = set_dhcp_renew_timer 2 s2" and r: "r = 0"
    by (auto simp add: packetloop_dhcp_renewhandler_def split: option.splits)
  from dhcp_option_parser_keeps [OF p]
  have "dhcp_state s2 = 3" "dhcp_retry s2 = 0" "broadcast_enabled s2 = False"
    by (simp_all add: enc28j60DisableBroadcast_def)
  with b r show ?thesis by (simp add: renew_timer_2)
qed

lemma initial_returns_1:
  assumes "packetloop_dhcp_initial_ip_assignment n True buf plen s = Some (1, b)"
  shows "dhcp_cnt_down b = dhcp_opt_leasetime b div 2 \<and> dhcp_retry b = 0 \<and>
         dhcp_state b = (if dhcp_opt_leasetime b < 2 then 0 else 3) \<and>
         broadcast_enabled b = False"
proof -
  obtain r s1 where m: "is_dhcp_msg_for_me n buf plen s = (r, s1)"
    by (cases "is_dhcp_msg_for_me n buf plen s")
  from assms m have "b = enc28j60DisableBroadcast
          (set_dhcp_renew_timer 2 (s1\<lparr>dhcp_state := 3, dhcp_retry := 0\<rparr>))"
    by (simp add: packetloop_dhcp_initial_ip_assignment_def Let_def
        split: if_splits option.splits prod.splits)
  then show ?thesis by (simp add: renew_timer_2 enc28j60DisableBroadcast_def)
qed

text \<open>One renewal countdown that passes, with a lease (state 3 or 4) and without.\<close>

lemma renewal_step:
  assumes "dhcp_cnt_down s \<noteq> 0xffffffff" and "3 \<le> dhcp_state s"
  shows "packetloop_dhcp_renewhandler n True buf 0 (expire s) =
     Some (0, s\<lparr>dhcp_tid := dhcp_tid s + 1,
                 dhcp_cnt_down := dhcp_opt_leasetime s div 8,
                 dhcp_retry := dhcp_retry s + 1,
                 dhcp_state := (if dhcp_opt_leasetime s < 8 \<or> 3 < dhcp_retry s + 1 then 0 else 4),
                 broadcast_enabled := True,
                 transmitted := transmitted s @
                    [renew_request_message (dhcp_tid s + 1) (dhcp_yiaddr s)]\<rparr>)"
proof -
  from assms(2) have st: "\<not> dhcp_state s < 3" by (simp add: not_less)
  show ?thesis
    using st
    by (simp add: expire_eq [OF assms(1)] packetloop_dhcp_renewhandler_def
        is_dhcp_cnt_down_zero_def renew_timer_8 send_dhcp_renew_request_def
        send_udp_transmit_def enc28j60EnableBroadcast_def Let_def)
qed

lemma renewal_step_idle:
  assumes "dhcp_cnt_down s \<noteq> 0xffffffff" and "dhcp_state s < 3"
  shows "packetloop_dhcp_renewhandler n True buf 0 (expire s) = Some (0, s\<lparr>dhcp_cnt_down := 0\<rparr>)"
  using assms(2) by (simp add: expire_eq [OF assms(1)] packetloop_dhcp_renewhandler_def)

lemma renewal_round_active:
  assumes "unanswered_renewals n buf k s = Some s'"
    and "dhcp_cnt_down s' \<noteq> 0xffffffff" and "3 \<le> dhcp_state s'"
  shows "\<exists>s''. unanswered_renewals n buf (Suc k) s = Some s'' \<and>
           dhcp_state s'' = (if dhcp_opt_leasetime s' < 8 \<or> 3 < dhcp_retry s' + 1 then 0 else 4) \<and>
           dhcp_retry s'' = dhcp_retry s' + 1 \<and>
           dhcp_cnt_down s'' = dhcp_opt_leasetime s' div 8 \<and>
           dhcp_opt_leasetime s'' = dhcp_opt_leasetime s' \<and>
           dhcp_tid s'' = dhcp_tid s' + 1 \<and>
           dhcp_yiaddr s'' = dhcp_yiaddr s' \<and>
           broadcast_enabled s'' \<and>
           transmitted s'' = transmitted s' @
              [renew_request_message (dhcp_tid s' + 1) (dhcp_yiaddr s')]"
  by (subst unanswered_renewals.simps(2))
     (simp add: assms(1) renewal_step [OF assms(2,3)])

lemma renewal_round_idle:
  assumes "unanswered_renewals n buf k s = Some s'"
    and "dhcp_cnt_down s' \<noteq> 0xffffffff" and "dhcp_state s' < 3"
  shows "\<exists>s''. unanswered_renewals n buf (Suc k) s = Some s'' \<and>
           dhcp_state s'' = dhcp_state s' \<and> dhcp_cnt_down s'' = 0"
  by (subst unanswered_renewals.simps(2))
     (simp add: assms(1) renewal_step_idle [OF assms(2,3)])

text \<open>
  Counted from BOUND, the fourth renewal countdown that passes unanswered ends in INIT: that
  is \<open>L div 2\<close> and three times \<open>L div 8\<close> seconds after binding.
\<close>

lemma bound_then_four_renewals:
  assumes "dhcp_state b = 3" and "dhcp_retry b = 0"
    and "dhcp_cnt_down b = dhcp_opt_leasetime b div 2"
  shows "(\<exists>s1. unanswered_renewals n buf 1 b = Some s1 \<and>
            dhcp_cnt_down s1 = dhcp_opt_leasetime b div 8 \<and>
            dhcp_tid s1 = dhcp_tid b + 1 \<and> broadcast_enabled s1 \<and>
            transmitted s1 = transmitted b @
              [renew_request_message (dhcp_tid b + 1) (dhcp_yiaddr b)] \<and>
            dhcp_state s1 = (if dhcp_opt_leasetime b < 8 then 0 else 4)) \<and>
         (8 \<le> dhcp_opt_leasetime b \<longrightarrow>
            (\<forall>k \<in> {1, 2, 3}. \<exists>sk. unanswered_renewals n buf k b = Some sk \<and>
               dhcp_state sk = 4 \<and> dhcp_cnt_down sk = dhcp_opt_leasetime b div 8 \<and>
               dhcp_tid sk = dhcp_tid b + of_nat k)) \<and>
         (\<exists>s4. unanswered_renewals n buf 4 b = Some s4 \<and> dhcp_state s4 = 0)"
proof -
  let ?L = "dhcp_opt_leasetime b"
  have r0: "unanswered_renewals n buf 0 b = Some b" by simp
  have c0: "dhcp_cnt_down b \<noteq> 0xffffffff" using assms(3) by (simp add: half_not_all_ones)
  have b3: "3 \<le> dhcp_state b" using assms(1) by simp
  from renewal_round_active [OF r0 c0 b3] assms(2)
  obtain s1 where r1: "unanswered_renewals n buf (Suc 0) b = Some s1"
    and s1: "dhcp_state s1 = (if ?L < 8 then 0 else 4)" "dhcp_retry s1 = 1"
      "dhcp_cnt_down s1 = ?L div 8" "dhcp_opt_leasetime s1 = ?L"
      "dhcp_tid s1 = dhcp_tid b + 1" "broadcast_enabled s1"
      "transmitted s1 = transmitted b @ [renew_request_message (dhcp_tid b + 1) (dhcp_yiaddr b)]"
    by auto
  have c1: "dhcp_cnt_down s1 \<noteq> 0xffffffff" using s1(3) by (simp add: eighth_not_all_ones)
  have first: "\<exists>s1. unanswered_renewals n buf 1 b = Some s1 \<and>
            dhcp_cnt_down s1 = ?L div 8 \<and>
            dhcp_tid s1 = dhcp_tid b + 1 \<and> broadcast_enabled s1 \<and>
            transmitted s1 = transmitted b @
              [renew_request_message (dhcp_tid b + 1) (dhcp_yiaddr b)] \<and>
            dhcp_state s1 = (if ?L < 8 then 0 else 4)"
    using r1 s1 by (simp del: unanswered_renewals.simps)
  show ?thesis
  proof (cases "?L < 8")
    case True
    with s1(1) have i1: "dhcp_state s1 < 3" by simp
    from renewal_round_idle [OF r1 c1 i1] True s1(1)
    obtain s2 where r2: "unanswered_renewals n buf (Suc (Suc 0)) b = Some s2"
      and s2: "dhcp_state s2 = 0" "dhcp_cnt_down s2 = 0" by auto
    have c2: "dhcp_cnt_down s2 \<noteq> 0xffffffff" and i2: "dhcp_state s2 < 3" using s2 by simp_all
    from renewal_round_idle [OF r2 c2 i2] s2
    obtain s3 where r3: "unanswered_renewals n buf (Suc (Suc (Suc 0))) b = Some s3"
      and s3: "dhcp_state s3 = 0" "dhcp_cnt_down s3 = 0" by auto
    have c3: "dhcp_cnt_down s3 \<noteq> 0xffffffff" and i3: "dhcp_state s3 < 3" using s3 by simp_all
    from renewal_round_idle [OF r3 c3 i3] s3
    obtain s4 where r4: "unanswered_renewals n buf (Suc (Suc (Suc (Suc 0)))) b = Some s4"
      and s4: "dhcp_state s4 = 0" by auto
    have "\<exists>s4. unanswered_renewals n buf 4 b = Some s4 \<and> dhcp_state s4 = 0"
      using r4 s4 by (simp add: eval_nat_numeral del: unanswered_renewals.simps)
    moreover from True have "\<not> 8 \<le> ?L" by (simp add: not_le)
    ultimately show ?thesis using first by blast
  next
    case False
    from False s1(1) have a1: "3 \<le> dhcp_state s1" by simp
    from renewal_round_active [OF r1 c1 a1] False s1
    obtain s2 where r2: "unanswered_renewals n buf (Suc (Suc 0)) b = Some s2"
      and s2: "dhcp_state s2 = 4" "dhcp_retry s2 = 2" "dhcp_cnt_down s2 = ?L div 8"
        "dhcp_opt_leasetime s2 = ?L" "dhcp_tid s2 = dhcp_tid b + 2"
      by (auto simp add: add.assoc)
    have c2: "dhcp_cnt_down s2 \<noteq> 0xffffffff" using s2(3) by (simp add: eighth_not_all_ones)
    have a2: "3 \<le> dhcp_state s2" using s2(1) by simp
    from renewal_round_active [OF r2 c2 a2] False s2
    obtain s3 where r3: "unanswered_renewals n buf (Suc (Suc (Suc 0))) b = Some s3"
      and s3: "dhcp_state s3 = 4" "dhcp_retry s3 = 3" "dhcp_cnt_down s3 = ?L div 8"
        "dhcp_opt_leasetime s3 = ?L" "dhcp_tid s3 = dhcp_tid b + 3"
      by (auto simp add: add.assoc)
    have c3: "dhcp_cnt_down s3 \<noteq> 0xffffffff" using s3(3) by (simp add: eighth_not_all_ones)
    have a3: "3 \<le> dhcp_state s3" using s3(1) by simp
    from renewal_round_active [OF r3 c3 a3] s3
    obtain s4 where r4: "unanswered_renewals n buf (Suc (Suc (Suc (Suc 0)))) b = Some s4"
      and s4: "dhcp_state s4 = 0"
      by auto
    have last: "\<exists>s4. unanswered_renewals n buf 4 b = Some s4 \<and> dhcp_state s4 = 0"
      using r4 s4 by (simp add: eval_nat_numeral del: unanswered_renewals.simps)
    have k1: "\<exists>sk. unanswered_renewals n buf 1 b = Some sk \<and>
               dhcp_state sk = 4 \<and> dhcp_cnt_down sk = ?L div 8 \<and>
               dhcp_tid sk = dhcp_tid b + of_nat 1"
      using r1 s1 False by (simp del: unanswered_renewals.simps)
    have k2: "\<exists>sk. unanswered_renewals n buf 2 b = Some sk \<and>
               dhcp_state sk = 4 \<and> dhcp_cnt_down sk = ?L div 8 \<and>
               dhcp_tid sk = dhcp_tid b + of_nat 2"
      using r2 s2 by (simp add: eval_nat_numeral del: unanswered_renewals.simps)
    have k3: "\<exists>sk. unanswered_renewals n buf 3 b = Some sk \<and>
               dhcp_state sk = 4 \<and> dhcp_cnt_down sk = ?L div 8 \<and>
               dhcp_tid sk = dhcp_tid b + of_nat 3"
      using r3 s3 by (simp add: eval_nat_numeral del: unanswered_renewals.simps)
    from k1 k2 k3 have "\<forall>k \<in> {1, 2, 3}. \<exists>sk. unanswered_renewals n buf k b = Some sk \<and>
               dhcp_state sk = 4 \<and> dhcp_cnt_down sk = ?L div 8 \<and>
               dhcp_tid sk = dhcp_tid b + of_nat k"
      by blast
    with first last show ?thesis by blast
  qed
qed

lemma renewal_first_expiry:
  assumes "dhcp_state b = 3" and "dhcp_retry b = 0"
    and "dhcp_cnt_down b = dhcp_opt_leasetime b div 2"
  shows "packetloop_dhcp_renewhandler n True pbuf 0 (expire b) =
     Some (0, b\<lparr>dhcp_tid := dhcp_tid b + 1,
                 dhcp_cnt_down := dhcp_opt_leasetime b div 8,
                 dhcp_retry := 1,
                 dhcp_state := (if dhcp_opt_leasetime b < 8 then 0 else 4),
                 broadcast_enabled := True,
                 transmitted := transmitted b @
                   [\<lparr>msg_tid = dhcp_tid b + 1, msg_ip_src = dhcp_yiaddr b,
                     msg_ciaddr = dhcp_yiaddr b, msg_options = [0x35, 1, 0x03]\<rparr>]\<rparr>)"
proof -
  have c: "dhcp_cnt_down b \<noteq> 0xffffffff" using assms(3) by (simp add: half_not_all_ones)
  have s: "3 \<le> dhcp_state b" using assms(1) by simp
  from renewal_step [OF c s, of n pbuf] assms(2) show ?thesis
    by (simp add: renew_request_message_def DHCP_REQUEST_V_def)
qed

lemma bound_pass_is_renewhandler:
  assumes "dhcp_state s = 3 \<or> dhcp_state s = 4"
  shows "dhcp_loop_pass n up1 up2 buf plen i s =
     map_option (\<lambda>(plen', s'). (0, plen', s')) (packetloop_dhcp_renewhandler n up2 buf plen s)"
proof -
  from assms have "2 < dhcp_state s" by auto
  then have "packetloop_dhcp_initial_ip_assignment n up1 buf plen s = Some (0, s)"
    by (simp add: packetloop_dhcp_initial_ip_assignment_def)
  then show ?thesis
    by (simp add: dhcp_loop_pass_def split: option.splits)
qed

text \<open>
  Claim C4, as stated: the expiry of the renewal countdown is a transition from BOUND to
  REBINDING. The client of the example is BOUND with a lease of 7 seconds, as the
  acknowledgment \<open>ack_7\<close> leaves it, with a countdown of 3. When the countdown has passed and
  the handler is called without a packet, the countdown is \<open>7 div 8 = 0\<close> and the state is
  INIT.
\<close>

theorem lease_7_expiry_ends_in_init:
  "dhcp_loop_pass frame_offsets True True ack_7 292 1 requesting_3600 = Some (1, 0, bound_7) \<and>
   dhcp_state bound_7 = 3 \<and> dhcp_opt_leasetime bound_7 = 7 \<and> dhcp_cnt_down bound_7 = 3 \<and>
   map_option (dhcp_state \<circ> snd)
     (packetloop_dhcp_renewhandler frame_offsets True no_packet 0 (expire bound_7)) = Some 0 \<and>
   map_option (dhcp_cnt_down \<circ> snd)
     (packetloop_dhcp_renewhandler frame_offsets True no_packet 0 (expire bound_7)) = Some 0"
proof -
  have f: "dhcp_state bound_7 = 3" "dhcp_retry bound_7 = 0" "dhcp_opt_leasetime bound_7 = 7"
    "dhcp_cnt_down bound_7 = 3"
    by (simp_all add: bound_7_def)
  have c: "dhcp_cnt_down bound_7 = dhcp_opt_leasetime bound_7 div 2" by (simp add: f)
  from renewal_first_expiry [OF f(1,2) c, of frame_offsets no_packet] show ?thesis
    by (simp add: pass_ack_7 f)
qed

text \<open>
  Claim C4, amended. Let the client have entered BOUND (state 3) through an accepted
  acknowledgment, in the initial assignment or in the renew handler, and let \<open>L\<close> be the
  lease time it then holds. The countdown is \<open>L div 2\<close>. When it has passed and the handler
  is called without a packet (link up), the transaction id is incremented, broadcast
  reception is enabled, the countdown is \<open>L div 8\<close> and one message is sent: a request
  (option 53 with value 3 and no other option) with the new transaction id and the held
  address as IP source and as \<^verbatim>\<open>ciaddr\<close>. The state is then REBINDING if \<open>L\<close> is at least 8,
  and INIT if \<open>L\<close> is below 8, when the quotient is 0. The same holds for the whole loop pass.
\<close>

theorem renewal_schedule:
  assumes "packetloop_dhcp_initial_ip_assignment n True buf plen s = Some (1, b) \<or>
           (plen \<noteq> 0 \<and> 3 \<le> dhcp_state s \<and> fst (is_dhcp_msg_for_me n buf plen s) \<noteq> 0 \<and>
            dhcp_get_message_type n buf plen = Some 5 \<and>
            packetloop_dhcp_renewhandler n up buf plen s = Some (0, b))"
    and "dhcp_state b = 3"
  shows "dhcp_cnt_down b = dhcp_opt_leasetime b div 2 \<and>
         packetloop_dhcp_renewhandler n True pbuf 0 (expire b) =
           Some (0, b\<lparr>dhcp_tid := dhcp_tid b + 1,
                 dhcp_cnt_down := dhcp_opt_leasetime b div 8,
                 dhcp_retry := 1,
                 dhcp_state := (if dhcp_opt_leasetime b < 8 then 0 else 4),
                 broadcast_enabled := True,
                 transmitted := transmitted b @
                   [\<lparr>msg_tid = dhcp_tid b + 1, msg_ip_src = dhcp_yiaddr b,
                     msg_ciaddr = dhcp_yiaddr b, msg_options = [0x35, 1, 0x03]\<rparr>]\<rparr>) \<and>
         dhcp_loop_pass n upi True pbuf 0 i (expire b) =
           Some (0, 0, b\<lparr>dhcp_tid := dhcp_tid b + 1,
                 dhcp_cnt_down := dhcp_opt_leasetime b div 8,
                 dhcp_retry := 1,
                 dhcp_state := (if dhcp_opt_leasetime b < 8 then 0 else 4),
                 broadcast_enabled := True,
                 transmitted := transmitted b @
                   [\<lparr>msg_tid = dhcp_tid b + 1, msg_ip_src = dhcp_yiaddr b,
                     msg_ciaddr = dhcp_yiaddr b, msg_options = [0x35, 1, 0x03]\<rparr>]\<rparr>)"
proof -
  from assms(1) have e: "dhcp_cnt_down b = dhcp_opt_leasetime b div 2 \<and> dhcp_retry b = 0"
  proof
    assume "packetloop_dhcp_initial_ip_assignment n True buf plen s = Some (1, b)"
    from initial_returns_1 [OF this] show ?thesis by simp
  next
    assume a: "plen \<noteq> 0 \<and> 3 \<le> dhcp_state s \<and> fst (is_dhcp_msg_for_me n buf plen s) \<noteq> 0 \<and>
            dhcp_get_message_type n buf plen = Some 5 \<and>
            packetloop_dhcp_renewhandler n up buf plen s = Some (0, b)"
    then have "plen \<noteq> 0" "3 \<le> dhcp_state s" "fst (is_dhcp_msg_for_me n buf plen s) \<noteq> 0"
      "dhcp_get_message_type n buf plen = Some 5"
      "packetloop_dhcp_renewhandler n up buf plen s = Some (0, b)"
      by simp_all
    from renew_ack [OF this] show ?thesis by simp
  qed
  then have c: "dhcp_cnt_down b = dhcp_opt_leasetime b div 2" and r: "dhcp_retry b = 0"
    by simp_all
  have x: "dhcp_state (expire b) = 3 \<or> dhcp_state (expire b) = 4"
    using assms(2) c by (simp add: expire_eq half_not_all_ones)
  from renewal_first_expiry [OF assms(2) r c, of n pbuf] c
    bound_pass_is_renewhandler [OF x, of n upi True pbuf 0 i]
  show ?thesis by simp
qed

text \<open>
  A renewal acknowledgment of 7200 seconds: 3600 seconds to the first renewal request, which
  goes out with transaction id 8 from 192.0.2.50, then 900 seconds in REBINDING.
\<close>

theorem renewal_schedule_witness:
  "packetloop_dhcp_renewhandler frame_offsets True ack_7200 298 bound_3600
     = Some (0, bound_7200) \<and>
   dhcp_state bound_7200 = 3 \<and> dhcp_opt_leasetime bound_7200 = 7200 \<and>
   dhcp_cnt_down bound_7200 = 3600 \<and>
   packetloop_dhcp_renewhandler frame_offsets True no_packet 0 (expire bound_7200) =
     Some (0, bound_7200\<lparr>dhcp_tid := 8, dhcp_cnt_down := 900, dhcp_retry := 1,
       dhcp_state := 4, broadcast_enabled := True,
       transmitted := [\<lparr>msg_tid = 8, msg_ip_src = (192, 0, 2, 50),
          msg_ciaddr = (192, 0, 2, 50), msg_options = [53, 1, 3]\<rparr>]\<rparr>)"
proof -
  have t: "dhcp_tid bound_3600 = 7" "3 \<le> dhcp_state bound_3600"
    by (simp_all add: bound_3600_def requesting_3600_def)
  have a: "fst (is_dhcp_msg_for_me frame_offsets ack_7200 298 bound_3600) \<noteq> 0"
    by (simp add: ack_7200_accepted t)
  have r: "packetloop_dhcp_renewhandler frame_offsets True ack_7200 298 bound_3600
     = Some (0, bound_7200)"
    by (simp add: packetloop_dhcp_renewhandler_def is_dhcp_msg_for_me_def verify_tid_unfold
        dhcp_get_message_type_def get_message_type_loop.simps dhcp_option_parser_def
        option_parser_loop.simps option_switch_def leasetime_loop.simps bytes4_def
        frame_offsets_def ack_7200_def DHCP_OPTION_OFFSET_def DHCP_SRV_SRC_PORT_def
        bound_3600_def bound_7200_def requesting_3600_def dhcp_power_on_def
        enc28j60DisableBroadcast_def set_dhcp_renew_timer_def is_dhcp_cnt_down_zero_def
        Let_def)
  have f: "dhcp_state bound_7200 = 3" "dhcp_opt_leasetime bound_7200 = 7200"
    "dhcp_cnt_down bound_7200 = 3600" "dhcp_tid bound_7200 = 7"
    "dhcp_yiaddr bound_7200 = (192, 0, 2, 50)" "transmitted bound_7200 = []"
    by (simp_all add: bound_7200_def requesting_3600_def dhcp_power_on_def)
  have d: "(7200 :: u32) div 8 = 900" "(7200 :: u32) div 2 = 3600" "\<not> (7200 :: u32) < 8"
    by simp_all
  from renewal_schedule [where n = frame_offsets and buf = ack_7200 and plen = 298 and s = bound_3600
      and b = bound_7200 and up = True and pbuf = no_packet and upi = True and i = 0]
    a t ack_7200_type r f d
  show ?thesis by simp
qed

section \<open>Properties of the bring-up sequence\<close>

lemma resolve_arps_to_3:
  assumes "init_state s \<noteq> 3" and "init_state (resolve_arps rvg s) = 3"
  shows "init_state s = 2 \<and> have_dns_mac s \<noteq> 0 \<and> have_ntp_mac s \<noteq> 0"
  using assms
  by (auto simp add: resolve_arps_def arpresolver_def Let_def split: if_splits)

lemma resolve_arps_flags:
  "have_dns_mac (resolve_arps rvg s) = have_dns_mac s \<and>
   have_ntp_mac (resolve_arps rvg s) = have_ntp_mac s"
  by (simp add: resolve_arps_def arpresolver_def Let_def)

text \<open>A single event reaches \<^verbatim>\<open>init_state\<close> 3 only with both flags already set.\<close>

lemma step_to_3:
  assumes "init_state s \<noteq> 3" and "init_state (step rvg e s) = 3"
  shows "have_dns_mac s \<noteq> 0 \<and> have_ntp_mac s \<noteq> 0"
proof (cases e)
  case (Idle up)
  let ?t = "request_initial_ip (link_check up s)"
  from assms(2) Idle have 3: "init_state (resolve_arps rvg ?t) = 3" by simp
  show ?thesis
  proof (cases "init_state ?t = 3")
    case True
    with assms(1) show ?thesis
      by (simp add: request_initial_ip_def link_check_def Let_def split: if_splits)
  next
    case False
    from resolve_arps_to_3 [OF False 3]
    have t: "init_state ?t = 2" "have_dns_mac ?t \<noteq> 0" "have_ntp_mac ?t \<noteq> 0" by simp_all
    then show ?thesis
      by (simp add: request_initial_ip_def link_check_def Let_def split: if_splits)
  qed
next
  case Tick
  with assms show ?thesis by (simp add: timer_tick_def split: if_splits)
next
  case (ArpReply ip r mac)
  with assms show ?thesis
    by (simp add: arpresolver_result_callback_def Let_def split: if_splits)
next
  case (LeaseAcquired d)
  with assms show ?thesis by (simp add: lease_acquired_def split: if_splits)
next
  case HttpPost
  with assms show ?thesis by (simp add: post_reinit_def)
qed

text \<open>A flag is only ever set by the callback for its reference number.\<close>

lemma step_dns_flag:
  assumes "have_dns_mac (step rvg e s) \<noteq> 0"
  shows "have_dns_mac s \<noteq> 0 \<or> callback_fired TRANS_NUM_DNSMAC [e]"
  using assms
  by (cases e)
     (auto simp add: callback_fired_def timer_tick_def arpresolver_result_callback_def
        lease_acquired_def post_reinit_def resolve_arps_flags request_initial_ip_def
        link_check_def Let_def split: if_splits)

lemma step_ntp_flag:
  assumes "have_ntp_mac (step rvg e s) \<noteq> 0"
  shows "have_ntp_mac s \<noteq> 0 \<or> callback_fired TRANS_NUM_NTPMAC [e]"
  using assms
  by (cases e)
     (auto simp add: callback_fired_def timer_tick_def arpresolver_result_callback_def
        lease_acquired_def post_reinit_def resolve_arps_flags request_initial_ip_def
        link_check_def Let_def split: if_splits)

lemma callback_fired_Cons:
  "callback_fired r (e # es) = (callback_fired r [e] \<or> callback_fired r es)"
  by (simp add: callback_fired_def)

lemma run_reaches_3:
  "init_state (run rvg es s) = 3 \<Longrightarrow> init_state s \<noteq> 3 \<Longrightarrow>
   (have_dns_mac s \<noteq> 0 \<or> callback_fired TRANS_NUM_DNSMAC es) \<and>
   (have_ntp_mac s \<noteq> 0 \<or> callback_fired TRANS_NUM_NTPMAC es)"
proof (induction es arbitrary: s)
  case Nil
  then show ?case by simp
next
  case (Cons e es)
  from Cons.prems(1) have r: "init_state (run rvg es (step rvg e s)) = 3" by simp
  show ?case
  proof (cases "init_state (step rvg e s) = 3")
    case True
    from step_to_3 [OF Cons.prems(2) True] show ?thesis by simp
  next
    case False
    from Cons.IH [OF r False]
    have "have_dns_mac (step rvg e s) \<noteq> 0 \<or> callback_fired TRANS_NUM_DNSMAC es"
      and "have_ntp_mac (step rvg e s) \<noteq> 0 \<or> callback_fired TRANS_NUM_NTPMAC es"
      by simp_all
    then show ?thesis
      using step_dns_flag [of rvg e s] step_ntp_flag [of rvg e s]
        callback_fired_Cons [of TRANS_NUM_DNSMAC e es]
        callback_fired_Cons [of TRANS_NUM_NTPMAC e es]
      by blast
  qed
qed

text \<open>
  Claim C9. Start in the ARP step (\<^verbatim>\<open>init_state\<close> 2) and let any events follow, in any order.
  If \<^verbatim>\<open>init_state\<close> is 3 afterwards, then for each of the two link-layer addresses the flag
  was set at the start or the callback with its reference number has run among these
  events; from a start with both flags clear, as \<^verbatim>\<open>init_state\<close> 0 leaves them, both
  callbacks have run. And as long as one flag is clear, a pass through the idle part, which
  is where \<^verbatim>\<open>arpresolver\<close> issues the requests, does not lead to 3.
\<close>

theorem peers_resolved_before_dns:
  assumes "init_state s = 2"
  shows "(init_state (run rvg es s) = 3 \<longrightarrow>
            (have_dns_mac s \<noteq> 0 \<or> callback_fired TRANS_NUM_DNSMAC es) \<and>
            (have_ntp_mac s \<noteq> 0 \<or> callback_fired TRANS_NUM_NTPMAC es)) \<and>
         (have_dns_mac s = 0 \<or> have_ntp_mac s = 0 \<longrightarrow>
            init_state (step rvg (Idle up) s) \<noteq> 3)"
proof -
  from assms have n3: "init_state s \<noteq> 3" by simp
  have a: "init_state (run rvg es s) = 3 \<longrightarrow>
            (have_dns_mac s \<noteq> 0 \<or> callback_fired TRANS_NUM_DNSMAC es) \<and>
            (have_ntp_mac s \<noteq> 0 \<or> callback_fired TRANS_NUM_NTPMAC es)"
    using run_reaches_3 [of rvg es s] n3 by blast
  have b: "have_dns_mac s = 0 \<or> have_ntp_mac s = 0 \<longrightarrow>
            init_state (step rvg (Idle up) s) \<noteq> 3"
    using step_to_3 [OF n3, of rvg "Idle up"] by blast
  from a b show ?thesis by blast
qed

text \<open>
  With the NTP reply first and the DNS reply last the sequence ends in \<^verbatim>\<open>init_state\<close> 3, and
  both callbacks have run; the first idle pass alone, which sends a request, stays at 2.
\<close>

theorem peers_resolved_before_dns_witness:
  "init_state resolving_peers = 2 \<and>
   init_state (run all_via_gateway ntp_reply_first resolving_peers) = 3 \<and>
   callback_fired TRANS_NUM_DNSMAC ntp_reply_first \<and>
   callback_fired TRANS_NUM_NTPMAC ntp_reply_first \<and>
   init_state (step all_via_gateway (Idle 1) resolving_peers) = 2 \<and>
   arp_requests (step all_via_gateway (Idle 1) resolving_peers) = [((192, 0, 2, 1), 2)]"
proof -
  have s: "init_state resolving_peers = 2" "have_dns_mac resolving_peers = 0"
    "have_ntp_mac resolving_peers = 0"
    by (simp_all add: resolving_peers_def)
  have r: "init_state (run all_via_gateway ntp_reply_first resolving_peers) = 3"
    by (simp add: ntp_reply_first_def resolving_peers_def resolve_arps_def arpresolver_def
        link_check_def request_initial_ip_def timer_tick_def arpresolver_result_callback_def
        TRANS_NUM_NTPMAC_def TRANS_NUM_DNSMAC_def all_via_gateway_def Let_def)
  have i: "init_state (step all_via_gateway (Idle 1) resolving_peers) = 2"
    "arp_requests (step all_via_gateway (Idle 1) resolving_peers) = [((192, 0, 2, 1), 2)]"
    by (simp_all add: resolving_peers_def resolve_arps_def arpresolver_def
        link_check_def request_initial_ip_def TRANS_NUM_DNSMAC_def all_via_gateway_def Let_def)
  from peers_resolved_before_dns [OF s(1), of all_via_gateway ntp_reply_first 1] r s i
  show ?thesis by simp
qed

end
